theory Spec2Isabelle
  imports Complex_Main "HOL-Library.Log_Nat"
begin

section \<open>JavaScript numbers\<close>

text \<open>
  A JavaScript Number is a double: a finite value, one of the two infinities, or NaN. A
  finite value is kept as the real number it denotes; the two zeros are identified (they
  compare equal). Comparisons are exact; \<open>+\<close> and \<open>/\<close> round their exact result to the
  nearest double, as below.
\<close>

datatype number = NaN | NegInfinity | Finite real | PosInfinity

text \<open>\<open>a <= b\<close>: false as soon as one side is NaN.\<close>

fun num_le :: "number \<Rightarrow> number \<Rightarrow> bool" where
  "num_le NaN b = False"
| "num_le a NaN = False"
| "num_le NegInfinity b = True"
| "num_le a PosInfinity = True"
| "num_le (Finite x) (Finite y) = (x \<le> y)"
| "num_le (Finite x) NegInfinity = False"
| "num_le PosInfinity (Finite y) = False"
| "num_le PosInfinity NegInfinity = False"

text \<open>\<open>a >= b\<close>.\<close>

definition num_ge :: "number \<Rightarrow> number \<Rightarrow> bool" where
  "num_ge a b = num_le b a"

text \<open>
  Rounding a real to a double, to nearest with ties to even: 53 significant bits, the
  unit of the last place never below \<open>2^-1074\<close>, and an infinity when the rounded value
  reaches \<open>2^1024\<close>. \<open>binade x\<close> is the exponent \<open>k\<close> with \<open>2^k <= |x| < 2^(k+1)\<close>.
\<close>

definition pow2 :: "int \<Rightarrow> real" where
  "pow2 e = (if 0 \<le> e then 2 ^ nat e else 1 / 2 ^ nat (- e))"

definition binade :: "real \<Rightarrow> int" where
  "binade x =
    (if 1 \<le> \<bar>x\<bar> then bitlen \<lfloor>\<bar>x\<bar>\<rfloor> - 1 else - bitlen (\<lceil>1 / \<bar>x\<bar>\<rceil> - 1))"

definition round_half_even :: "real \<Rightarrow> int" where
  "round_half_even y =
    (let f = \<lfloor>y\<rfloor>
     in if y - of_int f < 1 / 2 then f
        else if 1 / 2 < y - of_int f then f + 1
        else if even f then f else f + 1)"

definition to_double :: "real \<Rightarrow> number" where
  "to_double x =
    (if x = 0 then Finite 0
     else
       let e = max (- 1074) (binade x - 52);
           r = of_int (round_half_even (x / pow2 e)) * pow2 e
       in if 2 ^ 1024 \<le> \<bar>r\<bar>
          then (if 0 < x then PosInfinity else NegInfinity)
          else Finite r)"

section \<open>services/aqiService.js: the classifier\<close>

record aqi_category =
  cat_max :: number
  cat_category :: string
  cat_color :: string

record category_info =
  category :: string
  color :: string

definition AQI_CATEGORIES :: "aqi_category list" where
  "AQI_CATEGORIES =
    [\<lparr>cat_max = Finite 50, cat_category = ''Good'', cat_color = ''#00E400''\<rparr>,
     \<lparr>cat_max = Finite 100, cat_category = ''Moderate'', cat_color = ''#FFFF00''\<rparr>,
     \<lparr>cat_max = Finite 150, cat_category = ''Unhealthy for Sensitive Groups'',
      cat_color = ''#FF7E00''\<rparr>,
     \<lparr>cat_max = Finite 200, cat_category = ''Unhealthy'', cat_color = ''#FF0000''\<rparr>,
     \<lparr>cat_max = Finite 300, cat_category = ''Very Unhealthy'', cat_color = ''#8F3F97''\<rparr>,
     \<lparr>cat_max = Finite 500, cat_category = ''Hazardous'', cat_color = ''#7E0023''\<rparr>]"

text \<open>The \<open>for (const cat of AQI_CATEGORIES)\<close> loop, with the fall-through return.\<close>

fun first_category :: "aqi_category list \<Rightarrow> number \<Rightarrow> category_info" where
  "first_category [] aqiValue = \<lparr>category = ''Extreme'', color = ''#7E0023''\<rparr>"
| "first_category (cat # cats) aqiValue =
     (if num_le aqiValue (cat_max cat)
      then \<lparr>category = cat_category cat, color = cat_color cat\<rparr>
      else first_category cats aqiValue)"

definition getAqiCategory :: "number \<Rightarrow> category_info" where
  "getAqiCategory aqiValue = first_category AQI_CATEGORIES aqiValue"

text \<open>
  The ordered tier list of the specification, and the rank of a category in it (its
  position; 7 for a string that is no tier).
\<close>

definition SEVERITY_TIERS :: "string list" where
  "SEVERITY_TIERS =
    [''Good'', ''Moderate'', ''Unhealthy for Sensitive Groups'', ''Unhealthy'',
     ''Very Unhealthy'', ''Hazardous'', ''Extreme'']"

definition severity_rank :: "string \<Rightarrow> nat" where
  "severity_rank c = length (takeWhile (\<lambda>t. t \<noteq> c) SEVERITY_TIERS)"

text \<open>\<open>getRecommendations\<close>: a \<open>switch\<close> on the category string with a default.\<close>

definition getRecommendations :: "string \<Rightarrow> string list" where
  "getRecommendations aqiCategory =
    (if aqiCategory = ''Good'' then [''Air quality is good. Enjoy outdoor activities.'']
     else if aqiCategory = ''Moderate'' then
       [''Air quality is acceptable.'',
        ''Unusually sensitive people should consider reducing prolonged outdoor exertion.'']
     else if aqiCategory = ''Unhealthy for Sensitive Groups'' then
       [''People with respiratory or heart disease, the elderly and children should limit prolonged outdoor exertion.'',
        ''Consider moving activities indoors or rescheduling.'']
     else if aqiCategory = ''Unhealthy'' then
       [''People with respiratory or heart disease, the elderly and children should avoid prolonged outdoor exertion.'',
        ''Everyone should limit outdoor exertion.'',
        ''Consider wearing masks outdoors.'']
     else if aqiCategory = ''Very Unhealthy'' then
       [''Everyone should avoid outdoor physical activities.'',
        ''People with respiratory or heart disease, the elderly and children should remain indoors.'',
        ''Keep windows and doors closed.'',
        ''Use air purifiers if available.'']
     else if aqiCategory = ''Hazardous'' then
       [''Everyone should avoid all outdoor physical activities.'',
        ''Remain indoors with windows and doors closed.'',
        ''Use air purifiers if available.'',
        ''Follow evacuation orders if issued by local authorities.'']
     else
       [''Avoid all outdoor activities.'',
        ''Remain indoors with air purifiers if available.'',
        ''Follow emergency instructions from local authorities.''])"

section \<open>The documents (models/User.js, models/AqiHistory.js, models/Alert.js)\<close>

text \<open>
  Document ids are natural numbers handed out by a counter of the store. Dates are
  natural numbers. Of a user only the fields the pipeline reads are kept; of a location
  the three fields that the schemas of AqiHistory and Alert keep. The coordinates of a
  stored location have passed the Number cast of the User schema; they are reals.
\<close>

type_synonym object_id = nat

record location =
  loc_name :: string
  latitude :: real
  longitude :: real

record notification_methods =
  pushNotification :: bool
  email :: bool

record alert_preferences =
  threshold :: number
  notificationMethods :: notification_methods

record user =
  user_id :: object_id
  locations :: "location list"
  alertPreferences :: alert_preferences
  deviceTokens :: "string list"

text \<open>The reading that \<open>fetchAqiData\<close> returns, stored whole in AqiHistory.\<close>

record aqi_data =
  aqi_value :: number
  aqi_category :: string
  aqi_pollutant :: string
  aqi_source :: string

record aqi_history =
  h_id :: object_id
  h_userId :: object_id
  h_location :: location
  h_aqi :: aqi_data
  h_recordedAt :: nat

text \<open>The \<open>aqi\<close> sub-document of an Alert has no \<open>source\<close> path.\<close>

record alert_aqi =
  aa_value :: number
  aa_category :: string
  aa_pollutant :: string

definition alert_aqi_of :: "aqi_data \<Rightarrow> alert_aqi" where
  "alert_aqi_of aqiData =
    \<lparr>aa_value = aqi_value aqiData, aa_category = aqi_category aqiData,
     aa_pollutant = aqi_pollutant aqiData\<rparr>"

text \<open>
  A template literal is kept as its pieces: the rendering of a number or of an id as
  text is not modelled.
\<close>

datatype piece = Str string | Num number | Oid object_id

type_synonym template = "piece list"

record alert =
  a_id :: object_id
  a_userId :: object_id
  a_location :: location
  a_aqi :: alert_aqi
  a_message :: template
  a_recommendations :: "string list"
  acknowledged :: bool
  a_createdAt :: nat

section \<open>The outside world\<close>

record api_body =
  api_status :: string
  api_aqi :: number
  api_dominentpol :: string

text \<open>
  What \<open>axios.get\<close> does: it rejects, or it resolves with a response whose \<open>data\<close> is
  missing or is a body. The \<open>aqi\<close> of a body is the number it denotes. An \<open>aqi\<close> that is
  not numeric, such as the string \<open>-\<close> that the provider sends for a station without
  data, is \<open>NaN\<close>: that is what every comparison of the pipeline makes of it, and like
  \<open>NaN\<close> it does not pass the Number cast of a schema.
\<close>

datatype axios_response = Rejected | Response "api_body option"

datatype error = AxiosError | InvalidData | ValidationError | MessagingError

record push_data =
  pd_alertId :: template
  pd_aqiValue :: number
  pd_category :: string
  pd_location :: string

record notification =
  n_title :: template
  n_body :: template
  n_data :: push_data

record push_message =
  m_token :: string
  m_notification :: "template \<times> template"
  m_data :: push_data

text \<open>
  The environment of one sweep: the provider's answer per coordinate, whether the push
  transport accepts a message, and the clock.
\<close>

record env =
  axios_get :: "real \<Rightarrow> real \<Rightarrow> axios_response"
  messaging_send :: "push_message \<Rightarrow> bool"
  now :: nat

text \<open>
  The state: the three collections in insertion order, the id counter, and the traces of
  the two outward calls (each fetch of the sweep with its result, each message handed to
  the push transport with whether it was accepted). The connection to the store is
  taken as reliable: \<open>find\<close> does not reject, and \<open>save\<close> rejects only when the document
  fails the validation of its schema.
\<close>

record world =
  users :: "user list"
  history :: "aqi_history list"
  alerts :: "alert list"
  nextId :: nat
  fetchLog :: "(user \<times> location \<times> (error + aqi_data)) list"
  pushLog :: "(push_message \<times> bool) list"

datatype outcome = Completed | Threw error

section \<open>services/aqiService.js: fetchAqiData\<close>

definition fetchAqiData :: "env \<Rightarrow> real \<Rightarrow> real \<Rightarrow> error + aqi_data" where
  "fetchAqiData e lat lon =
    (case axios_get e lat lon of
       Rejected \<Rightarrow> Inl AxiosError
     | Response None \<Rightarrow> Inl InvalidData
     | Response (Some b) \<Rightarrow>
         if api_status b = ''ok''
         then Inr \<lparr>aqi_value = api_aqi b,
                   aqi_category = category (getAqiCategory (api_aqi b)),
                   aqi_pollutant = api_dominentpol b,
                   aqi_source = ''WAQI''\<rparr>
         else Inl InvalidData)"

section \<open>services/notificationService.js\<close>

definition push_message_of :: "string \<Rightarrow> notification \<Rightarrow> push_message" where
  "push_message_of token n =
    \<lparr>m_token = token, m_notification = (n_title n, n_body n), m_data = n_data n\<rparr>"

definition sendPushNotification ::
  "env \<Rightarrow> string \<Rightarrow> notification \<Rightarrow> world \<Rightarrow> outcome \<times> world" where
  "sendPushNotification e token n w =
    (let message = push_message_of token n
     in if messaging_send e message
        then (Completed, w\<lparr>pushLog := pushLog w @ [(message, True)]\<rparr>)
        else (Threw MessagingError, w\<lparr>pushLog := pushLog w @ [(message, False)]\<rparr>))"

section \<open>services/alertService.js\<close>

text \<open>
  \<open>for (const x of xs) { body }\<close> where the body may throw: the first exception leaves
  the loop, with the effects so far in place.
\<close>

fun for_each ::
  "('a \<Rightarrow> world \<Rightarrow> outcome \<times> world) \<Rightarrow> 'a list \<Rightarrow> world \<Rightarrow> outcome \<times> world" where
  "for_each body [] w = (Completed, w)"
| "for_each body (x # xs) w =
     (case body x w of
        (Completed, w') \<Rightarrow> for_each body xs w'
      | (Threw err, w') \<Rightarrow> (Threw err, w'))"

text \<open>
  \<open>new AqiHistory({...}).save()\<close> and \<open>new Alert({...}).save()\<close>. The one path of these
  documents whose cast can fail on what the pipeline writes is \<open>aqi.value\<close>, a Number:
  a value that is \<open>NaN\<close> fails validation, the save rejects and nothing is written.
\<close>

definition save_history ::
  "env \<Rightarrow> object_id \<Rightarrow> location \<Rightarrow> aqi_data \<Rightarrow> world \<Rightarrow> error + world" where
  "save_history e uid loc aqiData w =
    (if aqi_value aqiData = NaN then Inl ValidationError
     else Inr (w\<lparr>history := history w @
         [\<lparr>h_id = nextId w, h_userId = uid, h_location = loc, h_aqi = aqiData,
           h_recordedAt = now e\<rparr>],
       nextId := Suc (nextId w)\<rparr>))"

definition save_alert ::
  "env \<Rightarrow> object_id \<Rightarrow> location \<Rightarrow> aqi_data \<Rightarrow> template \<Rightarrow> string list \<Rightarrow> world
    \<Rightarrow> error + alert \<times> world" where
  "save_alert e uid loc aqiData message recommendations w =
    (if aqi_value aqiData = NaN then Inl ValidationError
     else
       let a = \<lparr>a_id = nextId w, a_userId = uid, a_location = loc,
                 a_aqi = alert_aqi_of aqiData, a_message = message,
                 a_recommendations = recommendations, acknowledged = False,
                 a_createdAt = now e\<rparr>
       in Inr (a, w\<lparr>alerts := alerts w @ [a], nextId := Suc (nextId w)\<rparr>))"

text \<open>The notification object handed to \<open>sendPushNotification\<close> for each token.\<close>

definition alert_notification ::
  "alert \<Rightarrow> aqi_data \<Rightarrow> string \<Rightarrow> location \<Rightarrow> notification" where
  "alert_notification a aqiData cat loc =
    \<lparr>n_title = [Str ''Air Quality Alert: '', Str cat],
     n_body = [Str ''Current AQI: '', Num (aqi_value aqiData), Str '' in '',
               Str (loc_name loc)],
     n_data = \<lparr>pd_alertId = [Oid (a_id a)], pd_aqiValue = aqi_value aqiData,
               pd_category = cat, pd_location = loc_name loc\<rparr>\<rparr>"

text \<open>The body of the inner loop: one (user, location) pair.\<close>

definition check_location :: "env \<Rightarrow> user \<Rightarrow> location \<Rightarrow> world \<Rightarrow> outcome \<times> world" where
  "check_location e u loc w =
    (let fetched = fetchAqiData e (latitude loc) (longitude loc);
         w0 = w\<lparr>fetchLog := fetchLog w @ [(u, loc, fetched)]\<rparr>
     in case fetched of
          Inl err \<Rightarrow> (Threw err, w0)
        | Inr aqiData \<Rightarrow>
           (case save_history e (user_id u) loc aqiData w0 of
              Inl err \<Rightarrow> (Threw err, w0)
            | Inr w1 \<Rightarrow>
                if num_ge (aqi_value aqiData) (threshold (alertPreferences u))
                then
                  let cat = category (getAqiCategory (aqi_value aqiData));
                      recommendations = getRecommendations cat
                  in case save_alert e (user_id u) loc aqiData
                       [Str ''Air quality alert: '', Num (aqi_value aqiData), Str '' ('',
                        Str cat, Str '') in '', Str (loc_name loc)]
                       recommendations w1 of
                       Inl err \<Rightarrow> (Threw err, w1)
                     | Inr (a, w2) \<Rightarrow>
                         let (sent, w3) =
                           (if pushNotification (notificationMethods (alertPreferences u))
                               \<and> length (deviceTokens u) > 0
                            then for_each
                              (\<lambda>token. sendPushNotification e token
                                 (alert_notification a aqiData cat loc))
                              (deviceTokens u) w2
                            else (Completed, w2))
                         in case sent of
                              Threw err \<Rightarrow> (Threw err, w3)
                            | Completed \<Rightarrow>
                                (if email (notificationMethods (alertPreferences u))
                                 then (Completed, w3)
                                 else (Completed, w3))
                else (Completed, w1)))"

text \<open>
  The sweep: \<open>User.find()\<close>, then the two nested loops. The \<open>catch\<close> around them logs and
  rethrows, so the outcome is that of the loops.
\<close>

definition checkAirQualityAndAlert :: "env \<Rightarrow> world \<Rightarrow> outcome \<times> world" where
  "checkAirQualityAndAlert e w =
    for_each (\<lambda>u. for_each (check_location e u) (locations u)) (users w) w"

text \<open>The (user, location) pairs in the order in which the two loops visit them.\<close>

definition pairs_of :: "user list \<Rightarrow> (user \<times> location) list" where
  "pairs_of us = concat (map (\<lambda>u. map (Pair u) (locations u)) us)"

definition check_pair :: "env \<Rightarrow> user \<times> location \<Rightarrow> world \<Rightarrow> outcome \<times> world" where
  "check_pair e p w = check_location e (fst p) (snd p) w"

section \<open>routes/alerts.js: acknowledge\<close>

text \<open>
  \<open>Alert.findOneAndUpdate({_id, userId}, {acknowledged: true}, {new: true})\<close>: the first
  matching document is updated and returned as updated; without a match nothing changes.
\<close>

fun findOneAndUpdate_acknowledged ::
  "object_id \<Rightarrow> object_id \<Rightarrow> alert list \<Rightarrow> alert option \<times> alert list" where
  "findOneAndUpdate_acknowledged alertId userId [] = (None, [])"
| "findOneAndUpdate_acknowledged alertId userId (a # rest) =
     (if a_id a = alertId \<and> a_userId a = userId
      then (Some (a\<lparr>acknowledged := True\<rparr>), a\<lparr>acknowledged := True\<rparr> # rest)
      else (case findOneAndUpdate_acknowledged alertId userId rest of
              (found, rest') \<Rightarrow> (found, a # rest')))"

datatype ack_response = Status200 alert | Status404

definition acknowledge :: "object_id \<Rightarrow> object_id \<Rightarrow> world \<Rightarrow> ack_response \<times> world" where
  "acknowledge alertId userId w =
    (case findOneAndUpdate_acknowledged alertId userId (alerts w) of
       (None, docs) \<Rightarrow> (Status404, w\<lparr>alerts := docs\<rparr>)
     | (Some a, docs) \<Rightarrow> (Status200 a, w\<lparr>alerts := docs\<rparr>))"

section \<open>routes/aqi.js: trend\<close>

text \<open>
  \<open>a + b\<close>, \<open>Math.max(a, b)\<close>, \<open>Math.min(a, b)\<close> and \<open>a / n\<close> for a length \<open>n\<close>. The sum
  and the quotient of two finite values are the exact ones rounded to a double.
\<close>

fun num_add :: "number \<Rightarrow> number \<Rightarrow> number" where
  "num_add NaN b = NaN"
| "num_add a NaN = NaN"
| "num_add (Finite x) (Finite y) = to_double (x + y)"
| "num_add PosInfinity NegInfinity = NaN"
| "num_add NegInfinity PosInfinity = NaN"
| "num_add PosInfinity b = PosInfinity"
| "num_add a PosInfinity = PosInfinity"
| "num_add NegInfinity b = NegInfinity"
| "num_add a NegInfinity = NegInfinity"

fun Math_max :: "number \<Rightarrow> number \<Rightarrow> number" where
  "Math_max NaN b = NaN"
| "Math_max a NaN = NaN"
| "Math_max a b = (if num_le a b then b else a)"

fun Math_min :: "number \<Rightarrow> number \<Rightarrow> number" where
  "Math_min NaN b = NaN"
| "Math_min a NaN = NaN"
| "Math_min a b = (if num_le a b then a else b)"

fun num_div_length :: "number \<Rightarrow> nat \<Rightarrow> number" where
  "num_div_length NaN n = NaN"
| "num_div_length PosInfinity n = PosInfinity"
| "num_div_length NegInfinity n = NegInfinity"
| "num_div_length (Finite x) n =
     (if n = 0 then (if x = 0 then NaN else if 0 < x then PosInfinity else NegInfinity)
      else to_double (x / real n))"

record data_point =
  dp_date :: nat
  dp_value :: number
  dp_category :: string

record trends =
  averageAqi :: number
  maxAqi :: number
  minAqi :: number
  dataPoints :: "data_point list"

text \<open>
  The query: the user's records of the period (and of the location, when one is given
  and is not the empty string), by ascending \<open>recordedAt\<close>. The two ends of the period,
  which the route computes from the calendar, are parameters.
\<close>

definition trend_query ::
  "object_id \<Rightarrow> string option \<Rightarrow> nat \<Rightarrow> nat \<Rightarrow> aqi_history list \<Rightarrow> aqi_history list" where
  "trend_query userId loc startDate endDate docs =
    sort_key h_recordedAt
      (filter (\<lambda>h. h_userId h = userId \<and> startDate \<le> h_recordedAt h
                 \<and> h_recordedAt h \<le> endDate
                 \<and> (case loc of None \<Rightarrow> True
                    | Some n \<Rightarrow> if n = [] then True else loc_name (h_location h) = n))
         docs)"

text \<open>The object pushed onto \<open>dataPoints\<close> for a record.\<close>

definition point_of :: "aqi_history \<Rightarrow> data_point" where
  "point_of point =
    \<lparr>dp_date = h_recordedAt point, dp_value = aqi_value (h_aqi point),
     dp_category = aqi_category (h_aqi point)\<rparr>"

text \<open>The \<open>data.forEach\<close> loop on \<open>totalAqi\<close> and \<open>trends\<close>.\<close>

fun trend_loop :: "aqi_history list \<Rightarrow> number \<times> trends \<Rightarrow> number \<times> trends" where
  "trend_loop [] acc = acc"
| "trend_loop (point # rest) (totalAqi, t) =
     trend_loop rest
       (num_add totalAqi (aqi_value (h_aqi point)),
        t\<lparr>maxAqi := Math_max (maxAqi t) (aqi_value (h_aqi point)),
          minAqi := Math_min (minAqi t) (aqi_value (h_aqi point)),
          dataPoints := dataPoints t @ [point_of point]\<rparr>)"

definition compute_trends :: "aqi_history list \<Rightarrow> trends" where
  "compute_trends data =
    (let t0 = \<lparr>averageAqi = Finite 0, maxAqi = Finite 0, minAqi = PosInfinity,
               dataPoints = []\<rparr>
     in if length data > 0
        then (case trend_loop data (Finite 0, t0) of
                (totalAqi, t) \<Rightarrow> t\<lparr>averageAqi := num_div_length totalAqi (length data)\<rparr>)
        else t0)"

definition trend ::
  "object_id \<Rightarrow> string option \<Rightarrow> nat \<Rightarrow> nat \<Rightarrow> world \<Rightarrow> trends" where
  "trend userId loc startDate endDate w =
    compute_trends (trend_query userId loc startDate endDate (history w))"

text \<open>The values of the readings of a list of records.\<close>

definition values_of :: "aqi_history list \<Rightarrow> number list" where
  "values_of data = map (\<lambda>h. aqi_value (h_aqi h)) data"

section \<open>What a sweep leaves behind\<close>

text \<open>
  A history record and an alert without their id and date, and the records and alerts
  that a trace of fetches stands for: one record per fetch that returned a reading whose
  value passes the cast, one alert per returned reading with \<open>value >= threshold\<close>.
\<close>

definition h_view :: "aqi_history \<Rightarrow> object_id \<times> location \<times> aqi_data" where
  "h_view h = (h_userId h, h_location h, h_aqi h)"

definition a_view :: "alert \<Rightarrow> object_id \<times> location \<times> alert_aqi" where
  "a_view a = (a_userId a, a_location a, a_aqi a)"

fun recorded ::
  "(user \<times> location \<times> (error + aqi_data)) list \<Rightarrow> (object_id \<times> location \<times> aqi_data) list" where
  "recorded [] = []"
| "recorded ((u, l, Inl err) # fs) = recorded fs"
| "recorded ((u, l, Inr r) # fs) =
     (if aqi_value r = NaN then recorded fs else (user_id u, l, r) # recorded fs)"

fun alerted ::
  "(user \<times> location \<times> (error + aqi_data)) list \<Rightarrow> (object_id \<times> location \<times> alert_aqi) list" where
  "alerted [] = []"
| "alerted ((u, l, Inl err) # fs) = alerted fs"
| "alerted ((u, l, Inr r) # fs) =
     (if num_ge (aqi_value r) (threshold (alertPreferences u))
      then (user_id u, l, alert_aqi_of r) # alerted fs
      else alerted fs)"

text \<open>
  The same from the pair list: what \<open>fetchAqiData\<close> returns for a pair, the readings
  returned for a list of pairs, and the two tests and the two views on a reading.
\<close>

definition fetched :: "env \<Rightarrow> user \<times> location \<Rightarrow> error + aqi_data" where
  "fetched e p = fetchAqiData e (latitude (snd p)) (longitude (snd p))"

fun readings :: "env \<Rightarrow> (user \<times> location) list \<Rightarrow> (user \<times> location \<times> aqi_data) list" where
  "readings e [] = []"
| "readings e (p # ps) =
     (case fetched e p of
        Inl err \<Rightarrow> readings e ps
      | Inr r \<Rightarrow> (fst p, snd p, r) # readings e ps)"

definition castable :: "user \<times> location \<times> aqi_data \<Rightarrow> bool" where
  "castable x = (aqi_value (snd (snd x)) \<noteq> NaN)"

definition meets_threshold :: "user \<times> location \<times> aqi_data \<Rightarrow> bool" where
  "meets_threshold x =
     num_ge (aqi_value (snd (snd x))) (threshold (alertPreferences (fst x)))"

definition record_view :: "user \<times> location \<times> aqi_data \<Rightarrow> object_id \<times> location \<times> aqi_data" where
  "record_view x = (user_id (fst x), fst (snd x), snd (snd x))"

definition alert_view :: "user \<times> location \<times> aqi_data \<Rightarrow> object_id \<times> location \<times> alert_aqi" where
  "alert_view x = (user_id (fst x), fst (snd x), alert_aqi_of (snd (snd x)))"

text \<open>
  Why a sweep can stop at a pair with an error: the fetch failed with it, or the value
  of the reading does not pass the cast, or a push was due and failed.
\<close>

definition stops :: "env \<Rightarrow> error \<Rightarrow> user \<times> location \<Rightarrow> bool" where
  "stops e err p =
     (case fetched e p of
        Inl err' \<Rightarrow> err = err'
      | Inr r \<Rightarrow>
          (if aqi_value r = NaN then err = ValidationError
           else err = MessagingError
             \<and> num_ge (aqi_value r) (threshold (alertPreferences (fst p)))
             \<and> pushNotification (notificationMethods (alertPreferences (fst p)))
             \<and> deviceTokens (fst p) \<noteq> []))"

text \<open>The alert that \<open>check_location\<close> saves for a qualifying reading in a world.\<close>

definition new_alert :: "env \<Rightarrow> user \<Rightarrow> location \<Rightarrow> aqi_data \<Rightarrow> world \<Rightarrow> alert" where
  "new_alert e u l r w =
    \<lparr>a_id = Suc (nextId w), a_userId = user_id u, a_location = l,
     a_aqi = alert_aqi_of r,
     a_message = [Str ''Air quality alert: '', Num (aqi_value r), Str '' ('',
       Str (category (getAqiCategory (aqi_value r))), Str '') in '', Str (loc_name l)],
     a_recommendations = getRecommendations (category (getAqiCategory (aqi_value r))),
     acknowledged = False, a_createdAt = now e\<rparr>"

text \<open>
  How a world may differ from an earlier one after any number of loop steps: the users
  are the same, and the three lists have grown at the end, by the records and alerts
  that the new part of the trace stands for, with ids taken from the counter.
\<close>

definition grows :: "world \<Rightarrow> world \<Rightarrow> bool" where
  "grows w w' \<longleftrightarrow>
     users w' = users w \<and> nextId w \<le> nextId w' \<and>
     (\<exists>fs hs as.
        fetchLog w' = fetchLog w @ fs \<and> history w' = history w @ hs
        \<and> alerts w' = alerts w @ as
        \<and> map h_view hs = recorded fs \<and> map a_view as = alerted fs
        \<and> (\<forall>h \<in> set hs. nextId w \<le> h_id h \<and> h_id h < nextId w')
        \<and> (\<forall>a \<in> set as. nextId w \<le> a_id a \<and> a_id a < nextId w'))"

section \<open>Concrete data\<close>

definition home :: location where
  "home = \<lparr>loc_name = ''Home'', latitude = 10, longitude = 20\<rparr>"

definition office :: location where
  "office = \<lparr>loc_name = ''Office'', latitude = 30, longitude = 40\<rparr>"

definition alice :: user where
  "alice = \<lparr>user_id = 1, locations = [home, office],
     alertPreferences = \<lparr>threshold = Finite 100,
       notificationMethods = \<lparr>pushNotification = True, email = False\<rparr>\<rparr>,
     deviceTokens = [''tokA'', ''tokB'']\<rparr>"

definition world0 :: world where
  "world0 = \<lparr>users = [alice], history = [], alerts = [], nextId = 0, fetchLog = [],
     pushLog = []\<rparr>"

text \<open>The provider answers \<open>ok\<close> with the given index everywhere; every push is accepted.\<close>

definition env_reading :: "real \<Rightarrow> env" where
  "env_reading x =
    \<lparr>axios_get = (\<lambda>lat lon.
        Response (Some \<lparr>api_status = ''ok'', api_aqi = Finite x, api_dominentpol = ''pm25''\<rparr>)),
     messaging_send = (\<lambda>m. True), now = 0\<rparr>"

text \<open>The request for the given latitude is rejected; elsewhere the index is 120.\<close>

definition env_down :: "real \<Rightarrow> env" where
  "env_down x =
    \<lparr>axios_get = (\<lambda>lat lon.
        if lat = x then Rejected
        else Response (Some \<lparr>api_status = ''ok'', api_aqi = Finite 120,
                              api_dominentpol = ''pm25''\<rparr>)),
     messaging_send = (\<lambda>m. True), now = 0\<rparr>"

text \<open>The index is 120 everywhere; the push transport rejects the given token.\<close>

definition env_stale :: "string \<Rightarrow> env" where
  "env_stale tok =
    \<lparr>axios_get = (\<lambda>lat lon.
        Response (Some \<lparr>api_status = ''ok'', api_aqi = Finite 120,
                         api_dominentpol = ''pm25''\<rparr>)),
     messaging_send = (\<lambda>m. m_token m \<noteq> tok), now = 0\<rparr>"

text \<open>The provider has no data: it answers \<open>ok\<close> with an \<open>aqi\<close> that is not a number.\<close>

definition env_no_data :: env where
  "env_no_data =
    \<lparr>axios_get = (\<lambda>lat lon.
        Response (Some \<lparr>api_status = ''ok'', api_aqi = NaN, api_dominentpol = ''pm25''\<rparr>)),
     messaging_send = (\<lambda>m. True), now = 0\<rparr>"

definition no_data :: aqi_data where
  "no_data = \<lparr>aqi_value = NaN, aqi_category = ''Extreme'', aqi_pollutant = ''pm25'',
     aqi_source = ''WAQI''\<rparr>"



definition world_good :: world where
  "world_good = snd (checkAirQualityAndAlert (env_reading 40) world0)"

definition alert7 :: alert where
  "alert7 = \<lparr>a_id = 7, a_userId = 1, a_location = home,
     a_aqi = \<lparr>aa_value = Finite 120, aa_category = ''Unhealthy for Sensitive Groups'',
              aa_pollutant = ''pm25''\<rparr>,
     a_message = [Str ''Air quality alert: '', Num (Finite 120), Str '' ('',
                  Str ''Unhealthy for Sensitive Groups'', Str '') in '', Str ''Home''],
     a_recommendations = getRecommendations ''Unhealthy for Sensitive Groups'',
     acknowledged = False, a_createdAt = 3\<rparr>"

definition alert8 :: alert where
  "alert8 = alert7\<lparr>a_id := 8, a_userId := 2\<rparr>"

definition world_alerts :: world where
  "world_alerts = world0\<lparr>alerts := [alert8, alert7], nextId := 9\<rparr>"

definition reading_of :: "real \<Rightarrow> aqi_data" where
  "reading_of x =
    \<lparr>aqi_value = Finite x, aqi_category = category (getAqiCategory (Finite x)),
     aqi_pollutant = ''pm25'', aqi_source = ''WAQI''\<rparr>"

definition reading_at :: "nat \<Rightarrow> real \<Rightarrow> aqi_history" where
  "reading_at t x =
    \<lparr>h_id = t, h_userId = 1, h_location = home, h_aqi = reading_of x,
     h_recordedAt = t\<rparr>"

definition world_week :: world where
  "world_week = world0\<lparr>history := [reading_at 1 80, reading_at 2 120, reading_at 3 90]\<rparr>"

section \<open>Properties of the classifier\<close>

lemma getAqiCategory_Finite:
  "getAqiCategory (Finite x) =
     (if x \<le> 50 then \<lparr>category = ''Good'', color = ''#00E400''\<rparr>
      else if x \<le> 100 then \<lparr>category = ''Moderate'', color = ''#FFFF00''\<rparr>
      else if x \<le> 150
        then \<lparr>category = ''Unhealthy for Sensitive Groups'', color = ''#FF7E00''\<rparr>
      else if x \<le> 200 then \<lparr>category = ''Unhealthy'', color = ''#FF0000''\<rparr>
      else if x \<le> 300 then \<lparr>category = ''Very Unhealthy'', color = ''#8F3F97''\<rparr>
      else if x \<le> 500 then \<lparr>category = ''Hazardous'', color = ''#7E0023''\<rparr>
      else \<lparr>category = ''Extreme'', color = ''#7E0023''\<rparr>)"
  by (simp add: getAqiCategory_def AQI_CATEGORIES_def)

lemma getAqiCategory_NegInfinity:
  "getAqiCategory NegInfinity = \<lparr>category = ''Good'', color = ''#00E400''\<rparr>"
  by (simp add: getAqiCategory_def AQI_CATEGORIES_def)

lemma getAqiCategory_PosInfinity:
  "getAqiCategory PosInfinity = \<lparr>category = ''Extreme'', color = ''#7E0023''\<rparr>"
  by (simp add: getAqiCategory_def AQI_CATEGORIES_def)

lemma getAqiCategory_NaN:
  "getAqiCategory NaN = \<lparr>category = ''Extreme'', color = ''#7E0023''\<rparr>"
  by (simp add: getAqiCategory_def AQI_CATEGORIES_def)

lemma rank_Finite:
  "severity_rank (category (getAqiCategory (Finite x))) =
     (if x \<le> 50 then 0 else if x \<le> 100 then 1 else if x \<le> 150 then 2
      else if x \<le> 200 then 3 else if x \<le> 300 then 4 else if x \<le> 500 then 5 else 6)"
  by (simp add: getAqiCategory_Finite severity_rank_def SEVERITY_TIERS_def)

lemma rank_other:
  "severity_rank (category (getAqiCategory NegInfinity)) = 0"
  "severity_rank (category (getAqiCategory PosInfinity)) = 6"
  "severity_rank (category (getAqiCategory NaN)) = 6"
  by (simp_all add: getAqiCategory_NegInfinity getAqiCategory_PosInfinity
      getAqiCategory_NaN severity_rank_def SEVERITY_TIERS_def)

lemma category_in_tiers: "category (getAqiCategory v) \<in> set SEVERITY_TIERS"
  by (cases v)
    (simp_all add: getAqiCategory_Finite getAqiCategory_NegInfinity
      getAqiCategory_PosInfinity getAqiCategory_NaN SEVERITY_TIERS_def)

text \<open>
  C5. The classifier is total on every number. It returns the category and colour of
  the table entry with the smallest bound that is \<open>>=\<close> the input, and \<open>Extreme\<close> when
  no bound is (NaN included). In particular 50 is Good, 51 is Moderate, 500 is
  Hazardous, and every value above 500, \<open>Infinity\<close> included, is Extreme.
\<close>

theorem getAqiCategory_smallest_bound:
  "((\<exists>c \<in> set AQI_CATEGORIES. num_le v (cat_max c)
        \<and> (\<forall>d \<in> set AQI_CATEGORIES.
              num_le v (cat_max d) \<longrightarrow> num_le (cat_max c) (cat_max d))
        \<and> getAqiCategory v = \<lparr>category = cat_category c, color = cat_color c\<rparr>)
     \<or> ((\<forall>c \<in> set AQI_CATEGORIES. \<not> num_le v (cat_max c))
        \<and> category (getAqiCategory v) = ''Extreme''))
   \<and> category (getAqiCategory (Finite 50)) = ''Good''
   \<and> category (getAqiCategory (Finite 51)) = ''Moderate''
   \<and> category (getAqiCategory (Finite 500)) = ''Hazardous''
   \<and> (\<forall>x. 500 < x \<longrightarrow> category (getAqiCategory (Finite x)) = ''Extreme'')
   \<and> category (getAqiCategory PosInfinity) = ''Extreme''"
proof -
  have table: "(\<exists>c \<in> set AQI_CATEGORIES. num_le v (cat_max c)
        \<and> (\<forall>d \<in> set AQI_CATEGORIES.
              num_le v (cat_max d) \<longrightarrow> num_le (cat_max c) (cat_max d))
        \<and> getAqiCategory v = \<lparr>category = cat_category c, color = cat_color c\<rparr>)
     \<or> ((\<forall>c \<in> set AQI_CATEGORIES. \<not> num_le v (cat_max c))
        \<and> category (getAqiCategory v) = ''Extreme'')"
  proof (cases v)
    case NaN
    then show ?thesis by (simp add: getAqiCategory_NaN AQI_CATEGORIES_def)
  next
    case NegInfinity
    then show ?thesis by (simp add: getAqiCategory_NegInfinity AQI_CATEGORIES_def)
  next
    case (Finite x)
    then show ?thesis by (simp add: getAqiCategory_Finite AQI_CATEGORIES_def)
  next
    case PosInfinity
    then show ?thesis by (simp add: getAqiCategory_PosInfinity AQI_CATEGORIES_def)
  qed
  have points: "category (getAqiCategory (Finite 50)) = ''Good''"
    "category (getAqiCategory (Finite 51)) = ''Moderate''"
    "category (getAqiCategory (Finite 500)) = ''Hazardous''"
    by (simp_all add: getAqiCategory_Finite)
  have above: "\<forall>x. 500 < x \<longrightarrow> category (getAqiCategory (Finite x)) = ''Extreme''"
    by (simp add: getAqiCategory_Finite)
  have inf: "category (getAqiCategory PosInfinity) = ''Extreme''"
    by (simp add: getAqiCategory_PosInfinity)
  from table points above inf show ?thesis by blast
qed

theorem getAqiCategory_smallest_bound_witness:
  "num_le (Finite 75) (Finite 100) \<and> \<not> num_le (Finite 75) (Finite 50)
   \<and> getAqiCategory (Finite 75) = \<lparr>category = ''Moderate'', color = ''#FFFF00''\<rparr>
   \<and> (500::real) < 501 \<and> category (getAqiCategory (Finite 501)) = ''Extreme''"
  using getAqiCategory_smallest_bound [of "Finite 75"]
  by (auto simp add: AQI_CATEGORIES_def)

text \<open>
  C8. The classifier is monotone: when \<open>v1 <= v2\<close>, the rank of the category of \<open>v1\<close>
  in the tier list is at most the rank of the category of \<open>v2\<close>; and the category of
  every input is one of the seven tiers.
\<close>

theorem getAqiCategory_monotone:
  "(num_le v1 v2 \<longrightarrow>
      severity_rank (category (getAqiCategory v1))
        \<le> severity_rank (category (getAqiCategory v2)))
   \<and> category (getAqiCategory v1) \<in> set SEVERITY_TIERS
   \<and> distinct SEVERITY_TIERS"
proof -
  have mono: "num_le v1 v2 \<longrightarrow>
      severity_rank (category (getAqiCategory v1))
        \<le> severity_rank (category (getAqiCategory v2))"
    by (cases v1; cases v2) (simp_all add: rank_Finite rank_other)
  have tiers: "distinct SEVERITY_TIERS"
    by (simp add: SEVERITY_TIERS_def)
  from mono category_in_tiers tiers show ?thesis by blast
qed

theorem getAqiCategory_monotone_witness:
  "num_le (Finite 40) (Finite 120)
   \<and> severity_rank (category (getAqiCategory (Finite 40))) = 0
   \<and> severity_rank (category (getAqiCategory (Finite 120))) = 2
   \<and> severity_rank (category (getAqiCategory (Finite 40)))
       \<le> severity_rank (category (getAqiCategory (Finite 120)))"
  using getAqiCategory_monotone [of "Finite 40" "Finite 120"]
  by (simp add: rank_Finite)

section \<open>Loops and the steps of the sweep\<close>

lemma for_each_append:
  "for_each f (xs @ ys) w =
     (case for_each f xs w of
        (Completed, w') \<Rightarrow> for_each f ys w'
      | (Threw err, w') \<Rightarrow> (Threw err, w'))"
  by (induction xs arbitrary: w) (auto split: prod.splits outcome.splits)

lemma for_each_nested:
  "for_each (\<lambda>u. for_each (g u) (ls u)) us w =
   for_each (\<lambda>p. g (fst p) (snd p)) (concat (map (\<lambda>u. map (Pair u) (ls u)) us)) w"
proof (induction us arbitrary: w)
  case Nil
  then show ?case by simp
next
  case (Cons u us)
  have inner: "for_each (\<lambda>p. g (fst p) (snd p)) (map (Pair u) ls') w' = for_each (g u) ls' w'" for ls' w'
    by (induction ls' arbitrary: w') (auto split: prod.splits outcome.splits)
  show ?case
    by (simp add: for_each_append inner Cons.IH split: prod.splits outcome.splits)
qed

lemma sweep_as_pairs:
  "checkAirQualityAndAlert e w = for_each (check_pair e) (pairs_of (users w)) w"
  unfolding checkAirQualityAndAlert_def pairs_of_def
  using for_each_nested [of "check_location e" locations "users w" w]
  by (simp add: check_pair_def [abs_def])

lemma send_accepted:
  "messaging_send e (push_message_of t n) \<Longrightarrow>
   sendPushNotification e t n w =
     (Completed, w\<lparr>pushLog := pushLog w @ [(push_message_of t n, True)]\<rparr>)"
  by (simp add: sendPushNotification_def)

lemma send_rejected:
  "\<not> messaging_send e (push_message_of t n) \<Longrightarrow>
   sendPushNotification e t n w =
     (Threw MessagingError, w\<lparr>pushLog := pushLog w @ [(push_message_of t n, False)]\<rparr>)"
  by (simp add: sendPushNotification_def)

lemma send_all_effect:
  "for_each (\<lambda>t. sendPushNotification e t n) ts w = (out, w') \<Longrightarrow>
   (\<exists>pl. w' = w\<lparr>pushLog := pushLog w @ pl\<rparr>) \<and> (out = Completed \<or> out = Threw MessagingError)"
proof (induction ts arbitrary: w)
  case Nil
  then show ?case by (auto intro: exI[of _ "[]"])
next
  case (Cons t ts)
  show ?case
  proof (cases "messaging_send e (push_message_of t n)")
    case True
    with Cons.prems have "for_each (\<lambda>t. sendPushNotification e t n) ts
        (w\<lparr>pushLog := pushLog w @ [(push_message_of t n, True)]\<rparr>) = (out, w')"
      by (simp add: send_accepted)
    from Cons.IH [OF this] obtain pl where
      "w' = w\<lparr>pushLog := pushLog w @ [(push_message_of t n, True)] @ pl\<rparr>"
      and "out = Completed \<or> out = Threw MessagingError" by auto
    then show ?thesis by blast
  next
    case False
    with Cons.prems have "w' = w\<lparr>pushLog := pushLog w @ [(push_message_of t n, False)]\<rparr>"
      and "out = Threw MessagingError"
      by (simp_all add: send_rejected)
    then show ?thesis by blast
  qed
qed

lemma send_all_accepted:
  "\<forall>t \<in> set ts. messaging_send e (push_message_of t n) \<Longrightarrow>
   for_each (\<lambda>t. sendPushNotification e t n) ts w =
     (Completed, w\<lparr>pushLog := pushLog w @ map (\<lambda>t. (push_message_of t n, True)) ts\<rparr>)"
  by (induction ts arbitrary: w) (simp_all add: send_accepted)

lemma send_all_rejected:
  assumes "\<forall>t' \<in> set ts1. messaging_send e (push_message_of t' n)"
    and "\<not> messaging_send e (push_message_of t n)"
  shows "for_each (\<lambda>t. sendPushNotification e t n) (ts1 @ t # ts2) w =
     (Threw MessagingError,
      w\<lparr>pushLog := pushLog w @ map (\<lambda>t. (push_message_of t n, True)) ts1
          @ [(push_message_of t n, False)]\<rparr>)"
  using assms
  by (simp add: for_each_append send_all_accepted send_rejected)

lemma not_ge_NaN: "\<not> num_ge NaN t"
  by (cases t) (simp_all add: num_ge_def)

lemma check_location_failed:
  "fetchAqiData e (latitude l) (longitude l) = Inl err \<Longrightarrow>
   check_location e u l w = (Threw err, w\<lparr>fetchLog := fetchLog w @ [(u, l, Inl err)]\<rparr>)"
  by (simp add: check_location_def)

lemma check_location_uncastable:
  "fetchAqiData e (latitude l) (longitude l) = Inr r \<Longrightarrow> aqi_value r = NaN \<Longrightarrow>
   check_location e u l w =
     (Threw ValidationError, w\<lparr>fetchLog := fetchLog w @ [(u, l, Inr r)]\<rparr>)"
  by (simp add: check_location_def save_history_def)

lemma check_location_below:
  "fetchAqiData e (latitude l) (longitude l) = Inr r \<Longrightarrow> aqi_value r \<noteq> NaN \<Longrightarrow>
   \<not> num_ge (aqi_value r) (threshold (alertPreferences u)) \<Longrightarrow>
   check_location e u l w =
     (Completed,
      w\<lparr>fetchLog := fetchLog w @ [(u, l, Inr r)],
        history := history w @
          [\<lparr>h_id = nextId w, h_userId = user_id u, h_location = l, h_aqi = r,
            h_recordedAt = now e\<rparr>],
        nextId := Suc (nextId w)\<rparr>)"
  by (simp add: check_location_def save_history_def)

text \<open>The world in which the pushes for a qualifying reading start.\<close>

lemma check_location_push:
  assumes "fetchAqiData e (latitude l) (longitude l) = Inr r"
    and "num_ge (aqi_value r) (threshold (alertPreferences u))"
    and "pushNotification (notificationMethods (alertPreferences u))"
    and "deviceTokens u \<noteq> []"
  shows "check_location e u l w =
     for_each (\<lambda>t. sendPushNotification e t
        (alert_notification (new_alert e u l r w) r (category (getAqiCategory (aqi_value r))) l))
       (deviceTokens u)
       (w\<lparr>fetchLog := fetchLog w @ [(u, l, Inr r)],
          history := history w @
            [\<lparr>h_id = nextId w, h_userId = user_id u, h_location = l, h_aqi = r,
              h_recordedAt = now e\<rparr>],
          alerts := alerts w @ [new_alert e u l r w],
          nextId := Suc (Suc (nextId w))\<rparr>)"
proof -
  have "aqi_value r \<noteq> NaN" using assms(2) not_ge_NaN by metis
  with assms show ?thesis
    by (simp add: check_location_def save_history_def save_alert_def Let_def new_alert_def
        split: prod.splits outcome.splits)
qed

lemma check_location_no_push:
  assumes "fetchAqiData e (latitude l) (longitude l) = Inr r"
    and "num_ge (aqi_value r) (threshold (alertPreferences u))"
    and "\<not> (pushNotification (notificationMethods (alertPreferences u)) \<and> deviceTokens u \<noteq> [])"
  shows "check_location e u l w =
     (Completed,
       w\<lparr>fetchLog := fetchLog w @ [(u, l, Inr r)],
          history := history w @
            [\<lparr>h_id = nextId w, h_userId = user_id u, h_location = l, h_aqi = r,
              h_recordedAt = now e\<rparr>],
          alerts := alerts w @ [new_alert e u l r w],
          nextId := Suc (Suc (nextId w))\<rparr>)"
proof -
  have "aqi_value r \<noteq> NaN" using assms(2) not_ge_NaN by metis
  with assms show ?thesis
    by (auto simp add: check_location_def save_history_def save_alert_def Let_def new_alert_def)
qed

lemma check_location_alert:
  assumes "fetchAqiData e (latitude l) (longitude l) = Inr r"
    and "num_ge (aqi_value r) (threshold (alertPreferences u))"
    and "check_location e u l w = (out, w')"
  shows "\<exists>pl. w' = w\<lparr>fetchLog := fetchLog w @ [(u, l, Inr r)],
       history := history w @
         [\<lparr>h_id = nextId w, h_userId = user_id u, h_location = l, h_aqi = r,
           h_recordedAt = now e\<rparr>],
       alerts := alerts w @ [new_alert e u l r w],
       nextId := Suc (Suc (nextId w)),
       pushLog := pushLog w @ pl\<rparr>"
    and "out = Completed \<or>
      (out = Threw MessagingError
        \<and> pushNotification (notificationMethods (alertPreferences u)) \<and> deviceTokens u \<noteq> [])"
proof -
  define w2 where "w2 = w\<lparr>fetchLog := fetchLog w @ [(u, l, Inr r)],
       history := history w @
         [\<lparr>h_id = nextId w, h_userId = user_id u, h_location = l, h_aqi = r,
           h_recordedAt = now e\<rparr>],
       alerts := alerts w @ [new_alert e u l r w],
       nextId := Suc (Suc (nextId w))\<rparr>"
  show "\<exists>pl. w' = w\<lparr>fetchLog := fetchLog w @ [(u, l, Inr r)],
       history := history w @
         [\<lparr>h_id = nextId w, h_userId = user_id u, h_location = l, h_aqi = r,
           h_recordedAt = now e\<rparr>],
       alerts := alerts w @ [new_alert e u l r w],
       nextId := Suc (Suc (nextId w)),
       pushLog := pushLog w @ pl\<rparr>"
  proof (cases "pushNotification (notificationMethods (alertPreferences u)) \<and> deviceTokens u \<noteq> []")
    case True
    with check_location_push [OF assms(1,2), of w] assms(3)
    have "for_each (\<lambda>t. sendPushNotification e t
        (alert_notification (new_alert e u l r w) r (category (getAqiCategory (aqi_value r))) l))
       (deviceTokens u) w2 = (out, w')" by (simp add: w2_def)
    from send_all_effect [OF this] obtain pl where "w' = w2\<lparr>pushLog := pushLog w2 @ pl\<rparr>" by blast
    then show ?thesis by (intro exI[of _ pl]) (simp add: w2_def)
  next
    case False
    from check_location_no_push [OF assms(1,2) False, of w] assms(3)
    have "w' = w2" by (simp add: w2_def)
    then show ?thesis by (intro exI[of _ "[]"]) (simp add: w2_def)
  qed
  show "out = Completed \<or>
      (out = Threw MessagingError
        \<and> pushNotification (notificationMethods (alertPreferences u)) \<and> deviceTokens u \<noteq> [])"
  proof (cases "pushNotification (notificationMethods (alertPreferences u)) \<and> deviceTokens u \<noteq> []")
    case True
    with check_location_push [OF assms(1,2), of w] assms(3)
    have "for_each (\<lambda>t. sendPushNotification e t
        (alert_notification (new_alert e u l r w) r (category (getAqiCategory (aqi_value r))) l))
       (deviceTokens u) w2 = (out, w')" by (simp add: w2_def)
    from send_all_effect [OF this] True show ?thesis by blast
  next
    case False
    from check_location_no_push [OF assms(1,2) False, of w] assms(3)
    show ?thesis by simp
  qed
qed

section \<open>What every run of the sweep preserves\<close>

lemma recorded_append: "recorded (fs @ gs) = recorded fs @ recorded gs"
  by (induction fs rule: recorded.induct) simp_all

lemma alerted_append: "alerted (fs @ gs) = alerted fs @ alerted gs"
  by (induction fs rule: alerted.induct) simp_all

lemma grows_refl: "grows w w"
  unfolding grows_def by (auto intro!: exI[of _ "[]"])

lemma grows_trans:
  assumes "grows w0 w1" and "grows w1 w2"
  shows "grows w0 w2"
proof -
  from assms(1) obtain fs hs as where 1:
    "users w1 = users w0" "nextId w0 \<le> nextId w1"
    "fetchLog w1 = fetchLog w0 @ fs" "history w1 = history w0 @ hs" "alerts w1 = alerts w0 @ as"
    "map h_view hs = recorded fs" "map a_view as = alerted fs"
    "\<forall>h \<in> set hs. nextId w0 \<le> h_id h \<and> h_id h < nextId w1"
    "\<forall>a \<in> set as. nextId w0 \<le> a_id a \<and> a_id a < nextId w1"
    unfolding grows_def by blast
  from assms(2) obtain gs ks bs where 2:
    "users w2 = users w1" "nextId w1 \<le> nextId w2"
    "fetchLog w2 = fetchLog w1 @ gs" "history w2 = history w1 @ ks" "alerts w2 = alerts w1 @ bs"
    "map h_view ks = recorded gs" "map a_view bs = alerted gs"
    "\<forall>h \<in> set ks. nextId w1 \<le> h_id h \<and> h_id h < nextId w2"
    "\<forall>a \<in> set bs. nextId w1 \<le> a_id a \<and> a_id a < nextId w2"
    unfolding grows_def by blast
  have "fetchLog w2 = fetchLog w0 @ (fs @ gs)" "history w2 = history w0 @ (hs @ ks)"
    "alerts w2 = alerts w0 @ (as @ bs)"
    using 1 2 by simp_all
  moreover have "map h_view (hs @ ks) = recorded (fs @ gs)" "map a_view (as @ bs) = alerted (fs @ gs)"
    using 1 2 by (simp_all add: recorded_append alerted_append)
  moreover have "\<forall>h \<in> set (hs @ ks). nextId w0 \<le> h_id h \<and> h_id h < nextId w2"
    using 1(2,8) 2(2,8) by fastforce
  moreover have "\<forall>a \<in> set (as @ bs). nextId w0 \<le> a_id a \<and> a_id a < nextId w2"
    using 1(2,9) 2(2,9) by fastforce
  moreover have "users w2 = users w0" "nextId w0 \<le> nextId w2" using 1 2 by simp_all
  ultimately show ?thesis unfolding grows_def by blast
qed

lemma check_location_grows:
  assumes "check_location e u l w = (out, w')"
  shows "grows w w'"
proof (cases "fetchAqiData e (latitude l) (longitude l)")
  case (Inl err)
  with assms have "w' = w\<lparr>fetchLog := fetchLog w @ [(u, l, Inl err)]\<rparr>"
    by (auto simp add: check_location_failed)
  then show ?thesis unfolding grows_def
    by (auto intro!: exI[of _ "[(u, l, Inl err)]"] exI[of _ "[]"])
next
  case (Inr r)
  show ?thesis
  proof (cases "aqi_value r = NaN")
    case True
    with assms Inr have "w' = w\<lparr>fetchLog := fetchLog w @ [(u, l, Inr r)]\<rparr>"
      by (auto simp add: check_location_uncastable)
    moreover have "alerted [(u, l, Inr r)] = []" "recorded [(u, l, Inr r)] = []"
      using True by (simp_all add: not_ge_NaN)
    ultimately show ?thesis unfolding grows_def
      by (auto intro!: exI[of _ "[(u, l, Inr r)]"] exI[of _ "[]"])
  next
    case castable: False
    show ?thesis
    proof (cases "num_ge (aqi_value r) (threshold (alertPreferences u))")
      case False
      with assms Inr castable have "w' = w\<lparr>fetchLog := fetchLog w @ [(u, l, Inr r)],
          history := history w @
            [\<lparr>h_id = nextId w, h_userId = user_id u, h_location = l, h_aqi = r,
              h_recordedAt = now e\<rparr>],
          nextId := Suc (nextId w)\<rparr>"
        by (auto simp add: check_location_below)
      moreover have "alerted [(u, l, Inr r)] = []" "recorded [(u, l, Inr r)] = [(user_id u, l, r)]"
        using False castable by simp_all
      ultimately show ?thesis unfolding grows_def
        by (auto simp add: h_view_def intro!: exI[of _ "[(u, l, Inr r)]"])
    next
      case True
      from check_location_alert(1) [OF Inr True assms] obtain pl where
        w': "w' = w\<lparr>fetchLog := fetchLog w @ [(u, l, Inr r)],
         history := history w @
           [\<lparr>h_id = nextId w, h_userId = user_id u, h_location = l, h_aqi = r,
             h_recordedAt = now e\<rparr>],
         alerts := alerts w @ [new_alert e u l r w],
         nextId := Suc (Suc (nextId w)),
         pushLog := pushLog w @ pl\<rparr>" by blast
      have "alerted [(u, l, Inr r)] = [(user_id u, l, alert_aqi_of r)]"
        "recorded [(u, l, Inr r)] = [(user_id u, l, r)]"
        using True castable by simp_all
      then show ?thesis unfolding grows_def
        by (auto simp add: w' h_view_def a_view_def new_alert_def intro!: exI[of _ "[(u, l, Inr r)]"])
    qed
  qed
qed

lemma for_each_grows:
  assumes body: "\<And>x w out w'. f x w = (out, w') \<Longrightarrow> grows w w'"
  shows "for_each f xs w = (out, w') \<Longrightarrow> grows w w'"
proof (induction xs arbitrary: w)
  case Nil
  then show ?case by (simp add: grows_refl)
next
  case (Cons x xs)
  obtain o1 w1 where step: "f x w = (o1, w1)" by (cases "f x w")
  show ?case
  proof (cases o1)
    case Completed
    with Cons.prems step have "for_each f xs w1 = (out, w')" by simp
    from grows_trans [OF body [OF step] Cons.IH [OF this]] show ?thesis .
  next
    case (Threw err)
    with Cons.prems step have "w' = w1" by simp
    with body [OF step] show ?thesis by simp
  qed
qed

lemma pairs_grow:
  assumes "for_each (check_pair e) ps w = (out, w')"
  shows "grows w w'"
  using assms
  by (rule for_each_grows [rotated]) (simp add: check_pair_def check_location_grows)

lemma check_location_log:
  assumes "check_location e u l w = (out, w')"
  shows "fetchLog w' = fetchLog w @ [(u, l, fetchAqiData e (latitude l) (longitude l))]"
proof (cases "fetchAqiData e (latitude l) (longitude l)")
  case (Inl err)
  with assms show ?thesis by (auto simp add: check_location_failed)
next
  case (Inr r)
  show ?thesis
  proof (cases "aqi_value r = NaN")
    case True
    with assms Inr show ?thesis by (auto simp add: check_location_uncastable)
  next
    case castable: False
    show ?thesis
    proof (cases "num_ge (aqi_value r) (threshold (alertPreferences u))")
      case True
      from check_location_alert(1) [OF Inr True assms] show ?thesis using Inr by auto
    next
      case False
      with assms Inr castable show ?thesis by (auto simp add: check_location_below)
    qed
  qed
qed

lemma check_location_stops:
  assumes "check_location e u l w = (Threw err, w')"
  shows "stops e err (u, l)"
proof (cases "fetchAqiData e (latitude l) (longitude l)")
  case (Inl err')
  with assms show ?thesis by (auto simp add: check_location_failed stops_def fetched_def)
next
  case (Inr r)
  show ?thesis
  proof (cases "aqi_value r = NaN")
    case True
    with assms Inr show ?thesis
      by (auto simp add: check_location_uncastable stops_def fetched_def)
  next
    case castable: False
    show ?thesis
    proof (cases "num_ge (aqi_value r) (threshold (alertPreferences u))")
      case True
      from check_location_alert(2) [OF Inr True assms] show ?thesis
        using Inr castable True by (simp add: stops_def fetched_def)
    next
      case False
      with assms Inr castable show ?thesis by (simp add: check_location_below)
    qed
  qed
qed

lemma pairs_visits:
  "for_each (check_pair e) ps w = (out, w') \<Longrightarrow>
   \<exists>k \<le> length ps.
      fetchLog w' = fetchLog w @ map (\<lambda>p. (fst p, snd p, fetched e p)) (take k ps)
      \<and> (out = Completed \<longrightarrow> k = length ps)
      \<and> (\<forall>err. out = Threw err \<longrightarrow> 0 < k \<and> stops e err (ps ! (k - 1)))"
proof (induction ps arbitrary: w)
  case Nil
  then show ?case by auto
next
  case (Cons p ps)
  obtain o1 w1 where step: "check_pair e p w = (o1, w1)"
    by (cases "check_pair e p w")
  note loc = step [unfolded check_pair_def]
  have log1: "fetchLog w1 = fetchLog w @ [(fst p, snd p, fetched e p)]"
    using check_location_log [OF loc] by (simp add: fetched_def)
  show ?case
  proof (cases o1)
    case Completed
    with Cons.prems step have rest: "for_each (check_pair e) ps w1 = (out, w')" by simp
    from Cons.IH [OF rest] obtain k where k: "k \<le> length ps"
      "fetchLog w' = fetchLog w1 @ map (\<lambda>p. (fst p, snd p, fetched e p)) (take k ps)"
      "out = Completed \<longrightarrow> k = length ps"
      "\<forall>err. out = Threw err \<longrightarrow> 0 < k \<and> stops e err (ps ! (k - 1))" by blast
    have "\<forall>err. out = Threw err \<longrightarrow> 0 < Suc k \<and> stops e err ((p # ps) ! (Suc k - 1))"
      using k(4) by (auto simp add: nth_Cons')
    with k(1,2,3) log1 show ?thesis
      by (intro exI[of _ "Suc k"]) simp
  next
    case (Threw err)
    with Cons.prems step have out: "out = Threw err" "w' = w1" by simp_all
    from loc Threw have "stops e err p"
      using check_location_stops [of e "fst p" "snd p" w err w1] by simp
    with out log1 show ?thesis
      by (intro exI[of _ 1]) simp
  qed
qed

lemma recorded_readings:
  "recorded (map (\<lambda>p. (fst p, snd p, fetched e p)) ps)
     = map record_view (filter castable (readings e ps))"
proof (induction ps)
  case Nil
  then show ?case by simp
next
  case (Cons p ps)
  then show ?case
    by (cases "fetched e p") (simp_all add: record_view_def castable_def)
qed

lemma alerted_readings:
  "alerted (map (\<lambda>p. (fst p, snd p, fetched e p)) ps)
     = map alert_view (filter meets_threshold (readings e ps))"
proof (induction ps)
  case Nil
  then show ?case by simp
next
  case (Cons p ps)
  then show ?case
    by (cases "fetched e p") (simp_all add: alert_view_def meets_threshold_def)
qed

text \<open>What any run of the sweep has done, in terms of the pair list.\<close>

lemma sweep_run:
  assumes "checkAirQualityAndAlert e w = (out, w')"
  shows "\<exists>k hs as. k \<le> length (pairs_of (users w))
      \<and> (out = Completed \<longrightarrow> k = length (pairs_of (users w)))
      \<and> (\<forall>err. out = Threw err \<longrightarrow> 0 < k \<and> stops e err (pairs_of (users w) ! (k - 1)))
      \<and> history w' = history w @ hs
      \<and> map h_view hs = map record_view (filter castable (readings e (take k (pairs_of (users w)))))
      \<and> alerts w' = alerts w @ as
      \<and> map a_view as
          = map alert_view (filter meets_threshold (readings e (take k (pairs_of (users w)))))
      \<and> (\<forall>h \<in> set hs. nextId w \<le> h_id h \<and> h_id h < nextId w')
      \<and> (\<forall>a \<in> set as. nextId w \<le> a_id a \<and> a_id a < nextId w')
      \<and> users w' = users w \<and> nextId w \<le> nextId w'"
proof -
  define ps where "ps = pairs_of (users w)"
  have run: "for_each (check_pair e) ps w = (out, w')"
    using assms by (simp add: sweep_as_pairs ps_def)
  from pairs_visits [OF run] obtain k where k: "k \<le> length ps"
    "fetchLog w' = fetchLog w @ map (\<lambda>p. (fst p, snd p, fetched e p)) (take k ps)"
    "out = Completed \<longrightarrow> k = length ps"
    "\<forall>err. out = Threw err \<longrightarrow> 0 < k \<and> stops e err (ps ! (k - 1))" by blast
  from pairs_grow [OF run] obtain fs hs as where g:
    "users w' = users w" "nextId w \<le> nextId w'"
    "fetchLog w' = fetchLog w @ fs" "history w' = history w @ hs" "alerts w' = alerts w @ as"
    "map h_view hs = recorded fs" "map a_view as = alerted fs"
    "\<forall>h \<in> set hs. nextId w \<le> h_id h \<and> h_id h < nextId w'"
    "\<forall>a \<in> set as. nextId w \<le> a_id a \<and> a_id a < nextId w'"
    unfolding grows_def by blast
  have fs: "fs = map (\<lambda>p. (fst p, snd p, fetched e p)) (take k ps)"
    using k(2) g(3) by simp
  have "map h_view hs = map record_view (filter castable (readings e (take k ps)))"
    "map a_view as = map alert_view (filter meets_threshold (readings e (take k ps)))"
    using g(6,7) by (simp_all add: fs recorded_readings alerted_readings)
  with k(1,3,4) g(1,2,4,5,8,9) show ?thesis
    unfolding ps_def by blast
qed

section \<open>More on readings and runs\<close>






section \<open>Rounding to a double\<close>

lemma round_half_even_int: "round_half_even (of_int z) = z"
  by (simp add: round_half_even_def)

lemma pow2_nonpos: "e \<le> 0 \<Longrightarrow> pow2 e = 1 / 2 ^ nat (- e)"
  by (cases "e = 0") (simp_all add: pow2_def)

lemma to_double_nat:
  assumes "n < 2 ^ 53"
  shows "to_double (real n) = Finite (real n)"
proof (cases "n = 0")
  case True
  then show ?thesis by (simp add: to_double_def)
next
  case False
  then have pos: "0 < int n" by simp
  have hi: "bitlen (int n) \<le> 53"
    using assms by (simp add: bitlen_le_iff_power flip: of_nat_less_iff)
  have lo: "1 \<le> bitlen (int n)"
    using pos bitlen_eq_zero_iff [of "int n"] bitlen_nonneg [of "int n"] by linarith
  define d where "d = nat (53 - bitlen (int n))"
  have bin: "binade (real n) = bitlen (int n) - 1"
    using False by (simp add: binade_def)
  have e: "max (- 1074) (binade (real n) - 52) = - int d"
    using hi lo by (simp add: bin d_def)
  have p: "pow2 (- int d) = 1 / 2 ^ d"
    by (simp add: pow2_nonpos)
  have q: "real n / pow2 (- int d) = of_int (int n * 2 ^ d)"
    by (simp add: p)
  have r: "of_int (round_half_even (real n / pow2 (- int d))) * pow2 (- int d) = real n"
    unfolding q round_half_even_int by (simp add: p)
  have small: "\<not> (2 :: real) ^ 1024 \<le> \<bar>real n\<bar>"
  proof -
    have "real n < 2 ^ 53" using assms by (simp flip: of_nat_less_iff)
    also have "(2 :: real) ^ 53 \<le> 2 ^ 1024" by (rule power_increasing) simp_all
    finally show ?thesis by simp
  qed
  show ?thesis
    using False small by (simp add: to_double_def Let_def e r del: of_nat_less_iff)
qed

lemma bitlen_96: "bitlen 96 = 7"
proof -
  have "bitlen 96 \<le> 7" by (simp add: bitlen_le_iff_power)
  moreover have "\<not> bitlen 96 \<le> 6" by (simp add: bitlen_le_iff_power)
  ultimately show ?thesis by linarith
qed

lemma binade_290_3: "binade (290 / 3) = 6"
proof -
  have "\<lfloor>\<bar>290 / 3 :: real\<bar>\<rfloor> = 96" by simp
  then show ?thesis by (simp add: binade_def bitlen_96)
qed

lemma round_290_3: "round_half_even (290 / 3 / pow2 (- 46)) = 6802311937174187"
proof -
  have v: "290 / 3 / pow2 (- 46) = (20406935811522560 / 3 :: real)"
    by (simp add: pow2_def)
  have f: "\<lfloor>20406935811522560 / 3 :: real\<rfloor> = 6802311937174186" by simp
  show ?thesis
    unfolding v by (simp add: round_half_even_def Let_def f)
qed

lemma to_double_290_3: "to_double (290 / 3) = Finite (6802311937174187 / 70368744177664)"
proof -
  have e: "max (- 1074) (binade (290 / 3) - 52) = - 46"
    by (simp add: binade_290_3)
  have r: "of_int (round_half_even (290 / 3 / pow2 (- 46))) * pow2 (- 46)
      = (6802311937174187 / 70368744177664 :: real)"
    unfolding round_290_3 by (simp add: pow2_def)
  have small: "\<not> (2 :: real) ^ 1024 \<le> \<bar>6802311937174187 / 70368744177664\<bar>"
  proof -
    have "\<bar>6802311937174187 / 70368744177664 :: real\<bar> < 2 ^ 7" by simp
    also have "(2 :: real) ^ 7 \<le> 2 ^ 1024" by (rule power_increasing) simp_all
    finally show ?thesis by simp
  qed
  have "to_double (290 / 3) =
      (if (290 / 3 :: real) = 0 then Finite 0
       else if 2 ^ 1024 \<le> \<bar>6802311937174187 / 70368744177664 :: real\<bar>
         then (if (0 :: real) < 290 / 3 then PosInfinity else NegInfinity)
         else Finite (6802311937174187 / 70368744177664))"
    unfolding to_double_def Let_def e r ..
  also have "\<dots> = Finite (6802311937174187 / 70368744177664)"
    using small by simp
  finally show ?thesis .
qed

lemma not_exact: "(6802311937174187 / 70368744177664 :: real) \<noteq> 290 / 3"
  by simp

section \<open>Lemmas on the two routes\<close>

lemma find_ack_length: "length (snd (findOneAndUpdate_acknowledged i u as)) = length as"
  by (induction as) (auto split: prod.splits)

lemma find_ack_None:
  "fst (findOneAndUpdate_acknowledged i u as) = None \<longleftrightarrow> (\<forall>a \<in> set as. \<not> (a_id a = i \<and> a_userId a = u))"
  by (induction as) (auto split: prod.splits)

lemma find_ack_None_same:
  "fst (findOneAndUpdate_acknowledged i u as) = None \<Longrightarrow> snd (findOneAndUpdate_acknowledged i u as) = as"
  by (induction as) (auto split: prod.splits if_splits)

lemma find_ack_Some:
  "findOneAndUpdate_acknowledged i u as = (Some a', as') \<Longrightarrow>
   \<exists>k < length as. a_id (as ! k) = i \<and> a_userId (as ! k) = u
      \<and> (\<forall>j < k. \<not> (a_id (as ! j) = i \<and> a_userId (as ! j) = u))
      \<and> a' = (as ! k)\<lparr>acknowledged := True\<rparr> \<and> as' = as[k := a']"
proof (induction as arbitrary: as')
  case Nil
  then show ?case by simp
next
  case (Cons a as)
  show ?case
  proof (cases "a_id a = i \<and> a_userId a = u")
    case True
    with Cons.prems have "a' = a\<lparr>acknowledged := True\<rparr>" "as' = a' # as" by auto
    then show ?thesis using True by (intro exI[of _ 0]) simp
  next
    case False
    with Cons.prems obtain r where r: "findOneAndUpdate_acknowledged i u as = (Some a', r)" "as' = a # r"
      by (auto split: prod.splits)
    from Cons.IH[OF r(1)] obtain k where k: "k < length as" "a_id (as ! k) = i" "a_userId (as ! k) = u"
      "\<forall>j < k. \<not> (a_id (as ! j) = i \<and> a_userId (as ! j) = u)"
      "a' = (as ! k)\<lparr>acknowledged := True\<rparr>" "r = as[k := a']" by blast
    show ?thesis
    proof (intro exI[of _ "Suc k"] conjI allI impI)
      fix j assume "j < Suc k"
      then show "\<not> (a_id ((a # as) ! j) = i \<and> a_userId ((a # as) ! j) = u)"
        using False k(4) by (cases j) auto
    qed (use k r in auto)
  qed
qed

lemma trend_loop_fold:
  "trend_loop data (tot, t) =
     (foldl num_add tot (values_of data),
      t\<lparr>maxAqi := foldl Math_max (maxAqi t) (values_of data),
        minAqi := foldl Math_min (minAqi t) (values_of data),
        dataPoints := dataPoints t @ map point_of data\<rparr>)"
  by (induction data arbitrary: tot t) (simp_all add: values_of_def)

lemma compute_trends_fold:
  "data \<noteq> [] \<Longrightarrow>
   compute_trends data =
     \<lparr>averageAqi = num_div_length (foldl num_add (Finite 0) (values_of data)) (length data),
      maxAqi = foldl Math_max (Finite 0) (values_of data),
      minAqi = foldl Math_min PosInfinity (values_of data),
      dataPoints = map point_of data\<rparr>"
  by (simp add: compute_trends_def trend_loop_fold del: num_div_length.simps)

lemma num_le_refl: "a \<noteq> NaN \<Longrightarrow> num_le a a"
  by (cases a) simp_all

lemma num_le_trans: "num_le a b \<Longrightarrow> num_le b c \<Longrightarrow> num_le a c"
  by (cases a; cases b; cases c) simp_all

lemma num_le_total: "a \<noteq> NaN \<Longrightarrow> b \<noteq> NaN \<Longrightarrow> num_le a b \<or> num_le b a"
  by (cases a; cases b) auto

lemma num_le_PosInfinity: "num_le PosInfinity v \<Longrightarrow> v = PosInfinity"
  by (cases v) simp_all

lemma Math_min_cases:
  "a \<noteq> NaN \<Longrightarrow> b \<noteq> NaN \<Longrightarrow> Math_min a b = (if num_le a b then a else b)"
  by (cases a; cases b) simp_all

lemma Math_max_cases:
  "a \<noteq> NaN \<Longrightarrow> b \<noteq> NaN \<Longrightarrow> Math_max a b = (if num_le a b then b else a)"
  by (cases a; cases b) simp_all

lemma foldl_min:
  "a \<noteq> NaN \<Longrightarrow> NaN \<notin> set vs \<Longrightarrow>
   foldl Math_min a vs \<noteq> NaN \<and> num_le (foldl Math_min a vs) a
   \<and> (\<forall>v \<in> set vs. num_le (foldl Math_min a vs) v)
   \<and> (foldl Math_min a vs = a \<or> foldl Math_min a vs \<in> set vs)"
proof (induction vs arbitrary: a)
  case Nil
  then show ?case by (simp add: num_le_refl)
next
  case (Cons v vs)
  then have v: "v \<noteq> NaN" "NaN \<notin> set vs" by auto
  show ?case
  proof (cases "num_le a v")
    case True
    then have step: "Math_min a v = a" using Cons.prems(1) v(1) by (simp add: Math_min_cases)
    from Cons.IH [OF Cons.prems(1) v(2)] True show ?thesis
      by (auto simp add: step intro: num_le_trans)
  next
    case False
    then have step: "Math_min a v = v" using Cons.prems(1) v(1) by (simp add: Math_min_cases)
    have va: "num_le v a" using False num_le_total [OF Cons.prems(1) v(1)] by blast
    from Cons.IH [OF v(1) v(2)] va show ?thesis
      by (auto simp add: step intro: num_le_trans)
  qed
qed

lemma foldl_max:
  "a \<noteq> NaN \<Longrightarrow> NaN \<notin> set vs \<Longrightarrow>
   foldl Math_max a vs \<noteq> NaN \<and> num_le a (foldl Math_max a vs)
   \<and> (\<forall>v \<in> set vs. num_le v (foldl Math_max a vs))
   \<and> (foldl Math_max a vs = a \<or> foldl Math_max a vs \<in> set vs)"
proof (induction vs arbitrary: a)
  case Nil
  then show ?case by (simp add: num_le_refl)
next
  case (Cons v vs)
  then have v: "v \<noteq> NaN" "NaN \<notin> set vs" by auto
  show ?case
  proof (cases "num_le a v")
    case True
    then have step: "Math_max a v = v" using Cons.prems(1) v(1) by (simp add: Math_max_cases)
    from Cons.IH [OF v(1) v(2)] True show ?thesis
      by (auto simp add: step intro: num_le_trans)
  next
    case False
    then have step: "Math_max a v = a" using Cons.prems(1) v(1) by (simp add: Math_max_cases)
    have va: "num_le v a" using False num_le_total [OF Cons.prems(1) v(1)] by blast
    from Cons.IH [OF Cons.prems(1) v(2)] va show ?thesis
      by (auto simp add: step intro: num_le_trans)
  qed
qed

lemma num_add_NaN: "num_add a NaN = NaN"
  by (cases a) simp_all

lemma Math_max_NaN: "Math_max a NaN = NaN"
  by (cases a) simp_all

lemma Math_min_NaN: "Math_min a NaN = NaN"
  by (cases a) simp_all

lemma foldl_NaN_start:
  "foldl num_add NaN vs = NaN" "foldl Math_max NaN vs = NaN" "foldl Math_min NaN vs = NaN"
  by (induction vs) simp_all

lemma foldl_NaN:
  "NaN \<in> set vs \<Longrightarrow>
   foldl num_add a vs = NaN \<and> foldl Math_max a vs = NaN \<and> foldl Math_min a vs = NaN"
proof (induction vs arbitrary: a)
  case Nil
  then show ?case by simp
next
  case (Cons v vs)
  show ?case
  proof (cases "v = NaN")
    case True
    then show ?thesis
      by (simp add: num_add_NaN Math_max_NaN Math_min_NaN foldl_NaN_start)
  next
    case False
    with Cons.prems have "NaN \<in> set vs" by simp
    from Cons.IH [OF this] show ?thesis by simp
  qed
qed

lemma foldl_add_nat:
  "s + sum_list ks < 2 ^ 53 \<Longrightarrow>
   foldl num_add (Finite (real s)) (map (\<lambda>k. Finite (real k)) ks)
     = Finite (real (s + sum_list ks))"
proof (induction ks arbitrary: s)
  case Nil
  then show ?case by simp
next
  case (Cons k ks)
  then have small: "s + k < 2 ^ 53" and rest: "(s + k) + sum_list ks < 2 ^ 53"
    by simp_all
  have "num_add (Finite (real s)) (Finite (real k)) = Finite (real (s + k))"
    using to_double_nat [OF small] by simp
  with Cons.IH [OF rest] show ?case by (simp add: add.assoc)
qed

lemma average_nat:
  assumes "data \<noteq> []" and "values_of data = map (\<lambda>k. Finite (real k)) ks"
    and "sum_list ks < 2 ^ 53"
  shows "averageAqi (compute_trends data) = to_double (real (sum_list ks) / real (length ks))"
proof -
  have len: "length data = length ks"
    using assms(2) by (metis length_map values_of_def)
  have "foldl num_add (Finite (real 0)) (map (\<lambda>k. Finite (real k)) ks)
      = Finite (real (0 + sum_list ks))"
    using assms(3) by (intro foldl_add_nat) simp
  then have "foldl num_add (Finite 0) (values_of data) = Finite (real (sum_list ks))"
    by (simp add: assms(2))
  moreover have "ks \<noteq> []" using assms(1) len by auto
  ultimately show ?thesis
    using assms(1) by (simp add: compute_trends_fold len)
qed

section \<open>Evaluating the sweep and the routes on the concrete data\<close>

lemmas run_defs = checkAirQualityAndAlert_def check_location_def fetchAqiData_def
  save_history_def save_alert_def sendPushNotification_def push_message_of_def
  alert_notification_def Let_def num_ge_def alert_aqi_of_def getAqiCategory_Finite

lemmas data_defs = world0_def alice_def home_def office_def env_reading_def env_down_def
  env_stale_def env_no_data_def reading_of_def no_data_def

lemma fetch_reading:
  "fetchAqiData (env_reading x) lat lon = Inr (reading_of x)"
  "fetchAqiData (env_stale tok) lat lon = Inr (reading_of 120)"
  "fetchAqiData env_no_data lat lon = Inr no_data"
  by (simp_all add: fetchAqiData_def env_reading_def env_stale_def env_no_data_def
      reading_of_def no_data_def getAqiCategory_NaN)

lemma pairs_world0: "pairs_of (users world0) = [(alice, home), (alice, office)]"
  by (simp add: pairs_of_def world0_def alice_def)



lemma world_good_eval:
  "world_good = world0\<lparr>history :=
       [\<lparr>h_id = 0, h_userId = 1, h_location = home, h_aqi = reading_of 40, h_recordedAt = 0\<rparr>,
        \<lparr>h_id = 1, h_userId = 1, h_location = office, h_aqi = reading_of 40, h_recordedAt = 0\<rparr>],
     nextId := 2,
     fetchLog := [(alice, home, Inr (reading_of 40)), (alice, office, Inr (reading_of 40))]\<rparr>"
  by (simp add: world_good_def run_defs data_defs)

lemma week_query:
  "trend_query 1 None 0 10 (history world_week) = [reading_at 1 80, reading_at 2 120, reading_at 3 90]"
  by (simp add: trend_query_def world_week_def world0_def reading_at_def)

lemma week_values:
  "values_of (trend_query 1 None 0 10 (history world_week)) = [Finite 80, Finite 120, Finite 90]"
  unfolding week_query by (simp add: values_of_def reading_at_def reading_of_def)

section \<open>The threshold decision and the history\<close>

text \<open>
  C1, as amended. In any run of the sweep, whatever its outcome, the alerts it creates
  are, in order, one for each reading with \<open>value >= threshold\<close> among the readings
  fetched for the pairs it has visited, and no other. The visited pairs are a prefix of
  the pair list: all of it when the sweep completes, and when it throws a prefix that
  ends at a pair that accounts for the error. When the reading fetched for a visited
  pair is below the threshold and its value passes the Number cast of the store, that is
  no error: the sweep goes on to the next pair, with only the history record added.
  (The Alert schema of the service has no type field: the threshold alert is the only
  alert the code creates.)
\<close>

theorem threshold_alert_iff:
  "(\<exists>k as. k \<le> length (pairs_of (users w))
      \<and> (fst (checkAirQualityAndAlert e w) = Completed \<longrightarrow> k = length (pairs_of (users w)))
      \<and> (\<forall>err. fst (checkAirQualityAndAlert e w) = Threw err \<longrightarrow>
            0 < k \<and> stops e err (pairs_of (users w) ! (k - 1)))
      \<and> alerts (snd (checkAirQualityAndAlert e w)) = alerts w @ as
      \<and> map a_view as
          = map alert_view (filter meets_threshold (readings e (take k (pairs_of (users w))))))
   \<and> (pairs_of (users w) = ps @ (u, l) # qs
       \<and> for_each (check_pair e) ps w = (Completed, w1)
       \<and> fetchAqiData e (latitude l) (longitude l) = Inr r
       \<and> aqi_value r \<noteq> NaN
       \<and> \<not> num_ge (aqi_value r) (threshold (alertPreferences u))
      \<longrightarrow> checkAirQualityAndAlert e w =
            for_each (check_pair e) qs
              (w1\<lparr>fetchLog := fetchLog w1 @ [(u, l, Inr r)],
                  history := history w1 @
                    [\<lparr>h_id = nextId w1, h_userId = user_id u, h_location = l, h_aqi = r,
                      h_recordedAt = now e\<rparr>],
                  nextId := Suc (nextId w1)\<rparr>))"
proof -
  obtain out w' where run: "checkAirQualityAndAlert e w = (out, w')"
    by (cases "checkAirQualityAndAlert e w")
  from sweep_run [OF run] have first: "\<exists>k as. k \<le> length (pairs_of (users w))
      \<and> (out = Completed \<longrightarrow> k = length (pairs_of (users w)))
      \<and> (\<forall>err. out = Threw err \<longrightarrow> 0 < k \<and> stops e err (pairs_of (users w) ! (k - 1)))
      \<and> alerts w' = alerts w @ as
      \<and> map a_view as
          = map alert_view (filter meets_threshold (readings e (take k (pairs_of (users w)))))"
    by blast
  have second: "checkAirQualityAndAlert e w =
            for_each (check_pair e) qs
              (w1\<lparr>fetchLog := fetchLog w1 @ [(u, l, Inr r)],
                  history := history w1 @
                    [\<lparr>h_id = nextId w1, h_userId = user_id u, h_location = l, h_aqi = r,
                      h_recordedAt = now e\<rparr>],
                  nextId := Suc (nextId w1)\<rparr>)"
    if "pairs_of (users w) = ps @ (u, l) # qs"
      and "for_each (check_pair e) ps w = (Completed, w1)"
      and "fetchAqiData e (latitude l) (longitude l) = Inr r"
      and "aqi_value r \<noteq> NaN"
      and "\<not> num_ge (aqi_value r) (threshold (alertPreferences u))"
    using that
    by (simp add: sweep_as_pairs for_each_append check_pair_def check_location_below)
  from first second show ?thesis by (simp add: run)
qed

text \<open>
  At index 80 against the threshold 100 the sweep goes on past the first location; at
  index 120 it completes with one alert for each of the two locations.
\<close>

theorem threshold_alert_iff_witness:
  "pairs_of (users world0) = [] @ (alice, home) # [(alice, office)]
   \<and> for_each (check_pair (env_reading 80)) [] world0 = (Completed, world0)
   \<and> fetchAqiData (env_reading 80) (latitude home) (longitude home) = Inr (reading_of 80)
   \<and> aqi_value (reading_of 80) \<noteq> NaN
   \<and> \<not> num_ge (aqi_value (reading_of 80)) (threshold (alertPreferences alice))
   \<and> checkAirQualityAndAlert (env_reading 80) world0 =
       for_each (check_pair (env_reading 80)) [(alice, office)]
         (world0\<lparr>fetchLog := fetchLog world0 @ [(alice, home, Inr (reading_of 80))],
            history := history world0 @
              [\<lparr>h_id = nextId world0, h_userId = user_id alice, h_location = home,
                h_aqi = reading_of 80, h_recordedAt = now (env_reading 80)\<rparr>],
            nextId := Suc (nextId world0)\<rparr>)
   \<and> fst (checkAirQualityAndAlert (env_reading 120) world0) = Completed
   \<and> map a_view (alerts (snd (checkAirQualityAndAlert (env_reading 120) world0)))
       = [(1, home, alert_aqi_of (reading_of 120)), (1, office, alert_aqi_of (reading_of 120))]"
proof -
  have p: "pairs_of (users world0) = [] @ (alice, home) # [(alice, office)]"
    by (simp add: pairs_world0)
  have pre: "for_each (check_pair (env_reading 80)) [] world0 = (Completed, world0)"
    by simp
  have f: "fetchAqiData (env_reading 80) (latitude home) (longitude home) = Inr (reading_of 80)"
    by (rule fetch_reading)
  have c: "aqi_value (reading_of 80) \<noteq> NaN" by (simp add: reading_of_def)
  have g: "\<not> num_ge (aqi_value (reading_of 80)) (threshold (alertPreferences alice))"
    by (simp add: num_ge_def alice_def reading_of_def)
  from threshold_alert_iff [where e = "env_reading 80" and w = world0 and ps = "[]"
      and u = alice and l = home and qs = "[(alice, office)]" and ?w1.0 = world0
      and r = "reading_of 80"] p pre f c g
  have noop: "checkAirQualityAndAlert (env_reading 80) world0 =
       for_each (check_pair (env_reading 80)) [(alice, office)]
         (world0\<lparr>fetchLog := fetchLog world0 @ [(alice, home, Inr (reading_of 80))],
            history := history world0 @
              [\<lparr>h_id = nextId world0, h_userId = user_id alice, h_location = home,
                h_aqi = reading_of 80, h_recordedAt = now (env_reading 80)\<rparr>],
            nextId := Suc (nextId world0)\<rparr>)"
    by blast
  have fin: "fst (checkAirQualityAndAlert (env_reading 120) world0) = Completed"
    by (simp add: run_defs data_defs)
  have rs: "readings (env_reading 120)
        (take (length (pairs_of (users world0))) (pairs_of (users world0)))
      = [(alice, home, reading_of 120), (alice, office, reading_of 120)]"
    by (simp add: pairs_world0 fetched_def fetch_reading)
  have m: "meets_threshold (alice, home, reading_of 120)"
    "meets_threshold (alice, office, reading_of 120)"
    by (simp_all add: meets_threshold_def num_ge_def alice_def reading_of_def)
  from threshold_alert_iff [where e = "env_reading 120" and w = world0 and ps = "[]"
      and u = alice and l = home and qs = "[]" and ?w1.0 = world0
      and r = "reading_of 120"] fin
  obtain as where "alerts (snd (checkAirQualityAndAlert (env_reading 120) world0)) = alerts world0 @ as"
    "map a_view as = map alert_view (filter meets_threshold
       (readings (env_reading 120) (take (length (pairs_of (users world0))) (pairs_of (users world0)))))"
    by auto
  moreover have "alerts world0 = []" by (simp add: world0_def)
  moreover have "alert_view (alice, home, reading_of 120) = (1, home, alert_aqi_of (reading_of 120))"
    "alert_view (alice, office, reading_of 120) = (1, office, alert_aqi_of (reading_of 120))"
    by (simp_all add: alert_view_def alice_def)
  ultimately have al: "map a_view (alerts (snd (checkAirQualityAndAlert (env_reading 120) world0)))
       = [(1, home, alert_aqi_of (reading_of 120)), (1, office, alert_aqi_of (reading_of 120))]"
    unfolding rs by (simp add: m)
  from p pre f c g noop fin al show ?thesis by blast
qed

text \<open>
  C1 as stated fails in its last part. The provider answers \<open>ok\<close> with an \<open>aqi\<close> that is
  not a number: the fetch returns a reading, no alert is raised, and the outcome is an
  error, since the history save rejects and the sweep throws.
\<close>

theorem uncastable_reading_is_error:
  "pairs_of (users world0) = [(alice, home), (alice, office)]
   \<and> fetchAqiData env_no_data (latitude home) (longitude home) = Inr no_data
   \<and> \<not> num_ge (aqi_value no_data) (threshold (alertPreferences alice))
   \<and> alerts (snd (checkAirQualityAndAlert env_no_data world0)) = []
   \<and> fst (checkAirQualityAndAlert env_no_data world0) = Threw ValidationError"
  by (simp add: pairs_world0 fetch_reading) (simp add: run_defs data_defs getAqiCategory_NaN)

text \<open>
  C7, as amended. In any run of the sweep, whatever its outcome, the history records it
  appends are, in order, one for each reading whose value passes the Number cast of the
  store among the readings fetched for the pairs it has visited: whether or not the
  reading meets the threshold, and also when a push for it fails.
\<close>

theorem history_recorded_per_fetch:
  "\<exists>k hs. k \<le> length (pairs_of (users w))
      \<and> (fst (checkAirQualityAndAlert e w) = Completed \<longrightarrow> k = length (pairs_of (users w)))
      \<and> (\<forall>err. fst (checkAirQualityAndAlert e w) = Threw err \<longrightarrow>
            0 < k \<and> stops e err (pairs_of (users w) ! (k - 1)))
      \<and> history (snd (checkAirQualityAndAlert e w)) = history w @ hs
      \<and> map h_view hs
          = map record_view (filter castable (readings e (take k (pairs_of (users w)))))"
proof -
  obtain out w' where run: "checkAirQualityAndAlert e w = (out, w')"
    by (cases "checkAirQualityAndAlert e w")
  from sweep_run [OF run] show ?thesis by (simp add: run) blast
qed

text \<open>
  Readings of 80, below the threshold 100, at two locations: two records.
\<close>

theorem history_recorded_per_fetch_witness:
  "fst (checkAirQualityAndAlert (env_reading 80) world0) = Completed
   \<and> readings (env_reading 80) (pairs_of (users world0))
       = [(alice, home, reading_of 80), (alice, office, reading_of 80)]
   \<and> castable (alice, home, reading_of 80) \<and> castable (alice, office, reading_of 80)
   \<and> \<not> meets_threshold (alice, home, reading_of 80)
   \<and> map h_view (history (snd (checkAirQualityAndAlert (env_reading 80) world0)))
       = [(1, home, reading_of 80), (1, office, reading_of 80)]"
proof -
  have fin: "fst (checkAirQualityAndAlert (env_reading 80) world0) = Completed"
    by (simp add: run_defs data_defs)
  have rs: "readings (env_reading 80)
        (take (length (pairs_of (users world0))) (pairs_of (users world0)))
      = [(alice, home, reading_of 80), (alice, office, reading_of 80)]"
    by (simp add: pairs_world0 fetched_def fetch_reading)
  have rs0: "readings (env_reading 80) (pairs_of (users world0))
      = [(alice, home, reading_of 80), (alice, office, reading_of 80)]"
    using rs by simp
  have c: "castable (alice, home, reading_of 80)" "castable (alice, office, reading_of 80)"
    by (simp_all add: castable_def reading_of_def)
  have m: "\<not> meets_threshold (alice, home, reading_of 80)"
    by (simp add: meets_threshold_def num_ge_def alice_def reading_of_def)
  from history_recorded_per_fetch [where e = "env_reading 80" and w = world0] fin
  obtain hs where "history (snd (checkAirQualityAndAlert (env_reading 80) world0)) = history world0 @ hs"
    "map h_view hs = map record_view (filter castable (readings (env_reading 80)
       (take (length (pairs_of (users world0))) (pairs_of (users world0)))))"
    by auto
  moreover have "history world0 = []" by (simp add: world0_def)
  moreover have "record_view (alice, home, reading_of 80) = (1, home, reading_of 80)"
    "record_view (alice, office, reading_of 80) = (1, office, reading_of 80)"
    by (simp_all add: record_view_def alice_def)
  ultimately have h: "map h_view (history (snd (checkAirQualityAndAlert (env_reading 80) world0)))
       = [(1, home, reading_of 80), (1, office, reading_of 80)]"
    unfolding rs by (simp add: c)
  from fin rs0 c m h show ?thesis by blast
qed

text \<open>
  C7 as stated fails. The provider answers \<open>ok\<close> with an \<open>aqi\<close> that is not a number:
  the fetch succeeds, as the trace shows, and no history record is persisted.
\<close>

theorem uncastable_reading_not_recorded:
  "fetchAqiData env_no_data (latitude home) (longitude home) = Inr no_data
   \<and> aqi_value no_data = NaN
   \<and> history (snd (checkAirQualityAndAlert env_no_data world0)) = []
   \<and> fetchLog (snd (checkAirQualityAndAlert env_no_data world0)) = [(alice, home, Inr no_data)]
   \<and> fst (checkAirQualityAndAlert env_no_data world0) = Threw ValidationError"
  by (simp add: fetch_reading) (simp add: run_defs data_defs getAqiCategory_NaN)



section \<open>Failures inside a sweep\<close>

text \<open>
  C2, as amended. The sweep has no handler per pair: when the fetch for a pair fails, the
  sweep stops there and throws the fetch error. The world is the one the pairs before it
  (in loop order) left, plus the trace entry of the failed fetch: their records and
  alerts are kept, and nothing is produced for the failing pair or for any later pair.
\<close>

theorem fetch_failure_stops_sweep:
  assumes "pairs_of (users w) = ps @ (u, l) # qs"
    and "for_each (check_pair e) ps w = (Completed, w1)"
    and "fetchAqiData e (latitude l) (longitude l) = Inl err"
  shows "checkAirQualityAndAlert e w =
     (Threw err, w1\<lparr>fetchLog := fetchLog w1 @ [(u, l, Inl err)]\<rparr>)"
  using assms
  by (simp add: sweep_as_pairs for_each_append check_pair_def check_location_failed)

text \<open>
  The office is down: the record and the alert of the home, visited first, are kept.
\<close>

theorem fetch_failure_stops_sweep_witness:
  "pairs_of (users world0) = [(alice, home)] @ (alice, office) # []
   \<and> for_each (check_pair (env_down 30)) [(alice, home)] world0 =
       (Completed, snd (check_location (env_down 30) alice home world0))
   \<and> fetchAqiData (env_down 30) (latitude office) (longitude office) = Inl AxiosError
   \<and> fst (checkAirQualityAndAlert (env_down 30) world0) = Threw AxiosError
   \<and> map h_view (history (snd (checkAirQualityAndAlert (env_down 30) world0)))
       = [(1, home, reading_of 120)]
   \<and> map a_view (alerts (snd (checkAirQualityAndAlert (env_down 30) world0)))
       = [(1, home, alert_aqi_of (reading_of 120))]"
proof -
  have p: "pairs_of (users world0) = [(alice, home)] @ (alice, office) # []"
    by (simp add: pairs_of_def world0_def alice_def)
  have c: "fst (check_location (env_down 30) alice home world0) = Completed"
    by (simp add: run_defs data_defs)
  have pre: "for_each (check_pair (env_down 30)) [(alice, home)] world0 =
       (Completed, snd (check_location (env_down 30) alice home world0))"
    using c by (cases "check_location (env_down 30) alice home world0") (simp add: check_pair_def)
  have f: "fetchAqiData (env_down 30) (latitude office) (longitude office) = Inl AxiosError"
    by (simp add: fetchAqiData_def env_down_def office_def)
  have hv: "map h_view (history (snd (check_location (env_down 30) alice home world0)))
       = [(1, home, reading_of 120)]"
    by (simp add: run_defs data_defs h_view_def)
  have av: "map a_view (alerts (snd (check_location (env_down 30) alice home world0)))
       = [(1, home, alert_aqi_of (reading_of 120))]"
    by (simp add: run_defs data_defs a_view_def)
  from fetch_failure_stops_sweep [OF p pre f] hv av
  have "fst (checkAirQualityAndAlert (env_down 30) world0) = Threw AxiosError"
    "map h_view (history (snd (checkAirQualityAndAlert (env_down 30) world0)))
       = [(1, home, reading_of 120)]"
    "map a_view (alerts (snd (checkAirQualityAndAlert (env_down 30) world0)))
       = [(1, home, alert_aqi_of (reading_of 120))]"
    by simp_all
  with p pre f show ?thesis by blast
qed

text \<open>
  C2 as stated fails. Two pairs; the fetch for the first is rejected, the fetch for the
  second would return 120 against the threshold 100. The sweep throws, and neither a
  history record nor an alert exists for the second pair.
\<close>

theorem pair_failure_aborts_sweep:
  "pairs_of (users world0) = [(alice, home), (alice, office)]
   \<and> fetchAqiData (env_down 10) (latitude home) (longitude home) = Inl AxiosError
   \<and> fetchAqiData (env_down 10) (latitude office) (longitude office) = Inr (reading_of 120)
   \<and> num_ge (aqi_value (reading_of 120)) (threshold (alertPreferences alice))
   \<and> fst (checkAirQualityAndAlert (env_down 10) world0) = Threw AxiosError
   \<and> history (snd (checkAirQualityAndAlert (env_down 10) world0)) = []
   \<and> alerts (snd (checkAirQualityAndAlert (env_down 10) world0)) = []"
  by (simp add: run_defs data_defs pairs_of_def)

text \<open>
  C4, as amended. A push that fails for a device token is rethrown: the tokens before it
  have been sent to, no later token is attempted, and the sweep throws with no later
  pair visited. The history record and the alert saved for the pair before the dispatch
  remain.
\<close>

theorem push_failure_stops_sweep:
  assumes pairs: "pairs_of (users w) = ps @ (u, l) # qs"
    and prefix: "for_each (check_pair e) ps w = (Completed, w1)"
    and fetched: "fetchAqiData e (latitude l) (longitude l) = Inr r"
    and ge: "num_ge (aqi_value r) (threshold (alertPreferences u))"
    and push: "pushNotification (notificationMethods (alertPreferences u))"
    and tokens: "deviceTokens u = ts1 @ t # ts2"
    and ok: "\<forall>m. m_token m \<in> set ts1 \<longrightarrow> messaging_send e m"
    and bad: "\<forall>m. m_token m = t \<longrightarrow> \<not> messaging_send e m"
  shows "\<exists>w' h a. checkAirQualityAndAlert e w = (Threw MessagingError, w')
     \<and> map (m_token \<circ> fst) (drop (length (pushLog w1)) (pushLog w')) = ts1 @ [t]
     \<and> map snd (drop (length (pushLog w1)) (pushLog w')) = replicate (length ts1) True @ [False]
     \<and> history w' = history w1 @ [h] \<and> h_view h = (user_id u, l, r)
     \<and> alerts w' = alerts w1 @ [a] \<and> a_view a = (user_id u, l, alert_aqi_of r)"
proof -
  define n where "n = alert_notification (new_alert e u l r w1) r (category (getAqiCategory (aqi_value r))) l"
  define w2 where "w2 = w1\<lparr>fetchLog := fetchLog w1 @ [(u, l, Inr r)],
          history := history w1 @
            [\<lparr>h_id = nextId w1, h_userId = user_id u, h_location = l, h_aqi = r,
              h_recordedAt = now e\<rparr>],
          alerts := alerts w1 @ [new_alert e u l r w1],
          nextId := Suc (Suc (nextId w1))\<rparr>"
  define w' where "w' = w2\<lparr>pushLog := pushLog w2 @ map (\<lambda>t. (push_message_of t n, True)) ts1
          @ [(push_message_of t n, False)]\<rparr>"
  have "deviceTokens u \<noteq> []" using tokens by simp
  from check_location_push [OF fetched ge push this, of w1]
  have "check_location e u l w1 = for_each (\<lambda>t. sendPushNotification e t n) (ts1 @ t # ts2) w2"
    by (simp add: n_def w2_def tokens)
  also have "\<dots> = (Threw MessagingError, w')"
    unfolding w'_def
    by (rule send_all_rejected) (use ok bad in \<open>simp_all add: push_message_of_def\<close>)
  finally have loc: "check_location e u l w1 = (Threw MessagingError, w')" .
  have run: "checkAirQualityAndAlert e w = (Threw MessagingError, w')"
    using pairs prefix loc by (simp add: sweep_as_pairs for_each_append check_pair_def)
  have log: "drop (length (pushLog w1)) (pushLog w') =
      map (\<lambda>t. (push_message_of t n, True)) ts1 @ [(push_message_of t n, False)]"
    by (simp add: w'_def w2_def)
  have toks: "map (m_token \<circ> fst) (drop (length (pushLog w1)) (pushLog w')) = ts1 @ [t]"
    unfolding log by (simp add: push_message_of_def comp_def)
  have oks: "map snd (drop (length (pushLog w1)) (pushLog w')) = replicate (length ts1) True @ [False]"
    unfolding log by (simp add: comp_def map_replicate_const)
  have hist: "history w' = history w1 @ [\<lparr>h_id = nextId w1, h_userId = user_id u, h_location = l, h_aqi = r,
              h_recordedAt = now e\<rparr>]"
    and al: "alerts w' = alerts w1 @ [new_alert e u l r w1]"
    by (simp_all add: w'_def w2_def)
  show ?thesis
    apply (rule exI[of _ w'])
    apply (rule exI[of _ "\<lparr>h_id = nextId w1, h_userId = user_id u, h_location = l, h_aqi = r,
              h_recordedAt = now e\<rparr>"])
    apply (rule exI[of _ "new_alert e u l r w1"])
    using run toks oks hist al
    apply (simp add: h_view_def a_view_def new_alert_def)
    done
qed

text \<open>
  The second token of the user is rejected: the first was sent to, the sweep throws.
\<close>

theorem push_failure_stops_sweep_witness:
  "pairs_of (users world0) = [] @ (alice, home) # [(alice, office)]
   \<and> fetchAqiData (env_stale ''tokB'') (latitude home) (longitude home) = Inr (reading_of 120)
   \<and> num_ge (aqi_value (reading_of 120)) (threshold (alertPreferences alice))
   \<and> pushNotification (notificationMethods (alertPreferences alice))
   \<and> deviceTokens alice = [''tokA''] @ ''tokB'' # []
   \<and> fst (checkAirQualityAndAlert (env_stale ''tokB'') world0) = Threw MessagingError
   \<and> map (m_token \<circ> fst) (pushLog (snd (checkAirQualityAndAlert (env_stale ''tokB'') world0)))
       = [''tokA'', ''tokB'']
   \<and> map snd (pushLog (snd (checkAirQualityAndAlert (env_stale ''tokB'') world0)))
       = [True, False]
   \<and> map h_view (history (snd (checkAirQualityAndAlert (env_stale ''tokB'') world0)))
       = [(1, home, reading_of 120)]
   \<and> map a_view (alerts (snd (checkAirQualityAndAlert (env_stale ''tokB'') world0)))
       = [(1, home, alert_aqi_of (reading_of 120))]"
proof -
  have p: "pairs_of (users world0) = [] @ (alice, home) # [(alice, office)]"
    by (simp add: pairs_of_def world0_def alice_def)
  have pre: "for_each (check_pair (env_stale ''tokB'')) [] world0 = (Completed, world0)"
    by simp
  have f: "fetchAqiData (env_stale ''tokB'') (latitude home) (longitude home) = Inr (reading_of 120)"
    by (simp add: fetchAqiData_def env_stale_def reading_of_def)
  have g: "num_ge (aqi_value (reading_of 120)) (threshold (alertPreferences alice))"
    by (simp add: num_ge_def alice_def reading_of_def)
  have pn: "pushNotification (notificationMethods (alertPreferences alice))"
    by (simp add: alice_def)
  have tk: "deviceTokens alice = [''tokA''] @ ''tokB'' # []"
    by (simp add: alice_def)
  have ok: "\<forall>m. m_token m \<in> set [''tokA''] \<longrightarrow> messaging_send (env_stale ''tokB'') m"
    by (simp add: env_stale_def)
  have bad: "\<forall>m. m_token m = ''tokB'' \<longrightarrow> \<not> messaging_send (env_stale ''tokB'') m"
    by (simp add: env_stale_def)
  from push_failure_stops_sweep [OF p pre f g pn tk ok bad]
  obtain w' h a where r: "checkAirQualityAndAlert (env_stale ''tokB'') world0 = (Threw MessagingError, w')"
    "map (m_token \<circ> fst) (drop (length (pushLog world0)) (pushLog w')) = [''tokA''] @ [''tokB'']"
    "map snd (drop (length (pushLog world0)) (pushLog w')) = replicate (length [''tokA'']) True @ [False]"
    "history w' = history world0 @ [h]" "h_view h = (user_id alice, home, reading_of 120)"
    "alerts w' = alerts world0 @ [a]" "a_view a = (user_id alice, home, alert_aqi_of (reading_of 120))"
    by blast
  have e: "pushLog world0 = []" "history world0 = []" "alerts world0 = []" "user_id alice = 1"
    by (simp_all add: world0_def alice_def)
  from r e have "fst (checkAirQualityAndAlert (env_stale ''tokB'') world0) = Threw MessagingError"
    "map (m_token \<circ> fst) (pushLog (snd (checkAirQualityAndAlert (env_stale ''tokB'') world0)))
       = [''tokA'', ''tokB'']"
    "map snd (pushLog (snd (checkAirQualityAndAlert (env_stale ''tokB'') world0))) = [True, False]"
    "map h_view (history (snd (checkAirQualityAndAlert (env_stale ''tokB'') world0)))
       = [(1, home, reading_of 120)]"
    "map a_view (alerts (snd (checkAirQualityAndAlert (env_stale ''tokB'') world0)))
       = [(1, home, alert_aqi_of (reading_of 120))]"
    by simp_all
  with p f g pn tk show ?thesis by blast
qed

text \<open>
  C4 as stated fails. The user has two tokens and the transport rejects only the first;
  it would accept the message for the second. The only attempt made is the failed one,
  and the sweep throws before the second location is visited.
\<close>

theorem stale_token_aborts_dispatch:
  "deviceTokens alice = [''tokA'', ''tokB'']
   \<and> pushNotification (notificationMethods (alertPreferences alice))
   \<and> pairs_of (users world0) = [(alice, home), (alice, office)]
   \<and> fetchAqiData (env_stale ''tokA'') (latitude office) (longitude office) = Inr (reading_of 120)
   \<and> messaging_send (env_stale ''tokA'')
        (push_message_of ''tokB''
          (alert_notification (new_alert (env_stale ''tokA'') alice home (reading_of 120) world0)
             (reading_of 120) ''Unhealthy for Sensitive Groups'' home))
   \<and> fst (checkAirQualityAndAlert (env_stale ''tokA'') world0) = Threw MessagingError
   \<and> map (m_token \<circ> fst) (pushLog (snd (checkAirQualityAndAlert (env_stale ''tokA'') world0)))
       = [''tokA'']
   \<and> map snd (pushLog (snd (checkAirQualityAndAlert (env_stale ''tokA'') world0))) = [False]
   \<and> map h_location (history (snd (checkAirQualityAndAlert (env_stale ''tokA'') world0)))
       = [home]"
  by (simp add: run_defs data_defs pairs_of_def)

section \<open>No change policy\<close>

text \<open>
  C3, as amended. The code has no change policy: the previous reading is never
  consulted. For a pair whose new reading is not at or above the threshold, no alert is
  produced and no push is sent, also when a previous reading of the pair had another
  category; and the step completes, unless the value is one that the store cannot cast.
\<close>

theorem below_threshold_no_alert:
  assumes "fetchAqiData e (latitude l) (longitude l) = Inr r2"
    and "\<not> num_ge (aqi_value r2) (threshold (alertPreferences u))"
    and "h \<in> set (history w)" and "h_view h = (user_id u, l, r1)"
    and "aqi_category r2 \<noteq> aqi_category r1"
  shows "(aqi_value r2 \<noteq> NaN \<longrightarrow> fst (check_location e u l w) = Completed)
     \<and> alerts (snd (check_location e u l w)) = alerts w
     \<and> pushLog (snd (check_location e u l w)) = pushLog w"
  using assms
  by (cases "aqi_value r2 = NaN") (simp_all add: check_location_below check_location_uncastable)

text \<open>
  After a sweep at 40 (Good), a reading of 80 (Moderate) at home raises nothing.
\<close>

theorem below_threshold_no_alert_witness:
  "fetchAqiData (env_reading 80) (latitude home) (longitude home) = Inr (reading_of 80)
   \<and> \<not> num_ge (aqi_value (reading_of 80)) (threshold (alertPreferences alice))
   \<and> \<lparr>h_id = 0, h_userId = 1, h_location = home, h_aqi = reading_of 40, h_recordedAt = 0\<rparr>
        \<in> set (history world_good)
   \<and> aqi_category (reading_of 80) = ''Moderate'' \<and> aqi_category (reading_of 40) = ''Good''
   \<and> fst (check_location (env_reading 80) alice home world_good) = Completed
   \<and> alerts (snd (check_location (env_reading 80) alice home world_good)) = []"
proof -
  have f: "fetchAqiData (env_reading 80) (latitude home) (longitude home) = Inr (reading_of 80)"
    by (rule fetch_reading)
  have g: "\<not> num_ge (aqi_value (reading_of 80)) (threshold (alertPreferences alice))"
    by (simp add: num_ge_def alice_def reading_of_def)
  have m: "\<lparr>h_id = 0, h_userId = 1, h_location = home, h_aqi = reading_of 40, h_recordedAt = 0\<rparr>
        \<in> set (history world_good)"
    by (simp add: world_good_eval)
  have v: "h_view \<lparr>h_id = 0, h_userId = 1, h_location = home, h_aqi = reading_of 40, h_recordedAt = 0\<rparr>
       = (user_id alice, home, reading_of 40)"
    by (simp add: h_view_def alice_def)
  have c: "aqi_category (reading_of 80) = ''Moderate''" "aqi_category (reading_of 40) = ''Good''"
    by (simp_all add: reading_of_def getAqiCategory_Finite)
  then have d: "aqi_category (reading_of 80) \<noteq> aqi_category (reading_of 40)" by simp
  have n: "aqi_value (reading_of 80) \<noteq> NaN" by (simp add: reading_of_def)
  have a0: "alerts world_good = []" by (simp add: world_good_eval world0_def)
  from below_threshold_no_alert [OF f g m v d] n a0 f g m c show ?thesis by simp
qed

text \<open>
  C3 as stated fails. A sweep at index 40 and then a sweep at index 80, threshold 100:
  the category of each location goes from Good to Moderate, both sweeps complete, and
  there is no alert.
\<close>

theorem category_change_no_alert:
  "map (aqi_category \<circ> h_aqi)
      (history (snd (checkAirQualityAndAlert (env_reading 80) world_good)))
     = [''Good'', ''Good'', ''Moderate'', ''Moderate'']
   \<and> map h_location (history (snd (checkAirQualityAndAlert (env_reading 80) world_good)))
     = [home, office, home, office]
   \<and> \<not> num_ge (Finite 80) (threshold (alertPreferences alice))
   \<and> fst (checkAirQualityAndAlert (env_reading 80) world_good) = Completed
   \<and> alerts (snd (checkAirQualityAndAlert (env_reading 80) world_good)) = []"
  by (simp add: world_good_eval run_defs data_defs)

section \<open>The two routes\<close>

text \<open>
  C9. Acknowledging an existing alert of the requesting user answers 200 with the
  updated alert; in the store exactly one alert has changed, the first with that id and
  owner (the alert itself when ids are unique), and it differs from the old one in the
  \<open>acknowledged\<close> flag only, which is now true. Every other field of it, every other
  alert and every other collection is as before.
\<close>

theorem acknowledge_sets_only_flag:
  assumes "a \<in> set (alerts w)" and "a_id a = alertId" and "a_userId a = userId"
  shows "\<exists>k a'. k < length (alerts w)
      \<and> a_id (alerts w ! k) = alertId \<and> a_userId (alerts w ! k) = userId
      \<and> (distinct (map a_id (alerts w)) \<longrightarrow> alerts w ! k = a)
      \<and> acknowledge alertId userId w = (Status200 a', w\<lparr>alerts := (alerts w)[k := a']\<rparr>)
      \<and> acknowledged a'
      \<and> a_id a' = a_id (alerts w ! k) \<and> a_userId a' = a_userId (alerts w ! k)
      \<and> a_location a' = a_location (alerts w ! k) \<and> a_aqi a' = a_aqi (alerts w ! k)
      \<and> a_message a' = a_message (alerts w ! k)
      \<and> a_recommendations a' = a_recommendations (alerts w ! k)
      \<and> a_createdAt a' = a_createdAt (alerts w ! k)"
proof -
  obtain found docs where run: "findOneAndUpdate_acknowledged alertId userId (alerts w) = (found, docs)"
    by (cases "findOneAndUpdate_acknowledged alertId userId (alerts w)")
  have "found \<noteq> None"
    using find_ack_None [of alertId userId "alerts w"] assms run by auto
  then obtain a' where found: "found = Some a'" by blast
  from find_ack_Some [OF run [unfolded found]] obtain k where k:
    "k < length (alerts w)" "a_id (alerts w ! k) = alertId" "a_userId (alerts w ! k) = userId"
    "a' = (alerts w ! k)\<lparr>acknowledged := True\<rparr>" "docs = (alerts w)[k := a']" by blast
  have uniq: "alerts w ! k = a" if d: "distinct (map a_id (alerts w))"
  proof -
    from assms(1) obtain j where j: "j < length (alerts w)" "alerts w ! j = a"
      by (auto simp add: in_set_conv_nth)
    have "map a_id (alerts w) ! j = map a_id (alerts w) ! k"
      using j k(1,2) assms(2) by simp
    moreover have "j < length (map a_id (alerts w))" "k < length (map a_id (alerts w))"
      using j(1) k(1) by simp_all
    ultimately have "j = k" using d nth_eq_iff_index_eq by blast
    with j show ?thesis by simp
  qed
  have ack: "acknowledge alertId userId w = (Status200 a', w\<lparr>alerts := (alerts w)[k := a']\<rparr>)"
    by (simp add: acknowledge_def run found k(5))
  show ?thesis
    apply (rule exI[of _ k], rule exI[of _ a'])
    using k(1,2,3) uniq ack by (simp add: k(4))
qed

text \<open>
  Of two stored alerts the one with id 7 of user 1 is acknowledged.
\<close>

theorem acknowledge_sets_only_flag_witness:
  "alert7 \<in> set (alerts world_alerts) \<and> a_id alert7 = 7 \<and> a_userId alert7 = 1
   \<and> distinct (map a_id (alerts world_alerts))
   \<and> acknowledge 7 1 world_alerts =
       (Status200 (alert7\<lparr>acknowledged := True\<rparr>),
        world_alerts\<lparr>alerts := [alert8, alert7\<lparr>acknowledged := True\<rparr>]\<rparr>)"
proof -
  have m: "alert7 \<in> set (alerts world_alerts)" "a_id alert7 = 7" "a_userId alert7 = 1"
    by (simp_all add: world_alerts_def alert7_def)
  have d: "distinct (map a_id (alerts world_alerts))"
    by (simp add: world_alerts_def alert7_def alert8_def)
  from acknowledge_sets_only_flag [OF m] obtain k a' where
    "acknowledge 7 1 world_alerts = (Status200 a', world_alerts\<lparr>alerts := (alerts world_alerts)[k := a']\<rparr>)"
    by blast
  then have "acknowledge 7 1 world_alerts =
       (Status200 (alert7\<lparr>acknowledged := True\<rparr>),
        world_alerts\<lparr>alerts := [alert8, alert7\<lparr>acknowledged := True\<rparr>]\<rparr>)"
    by (simp add: acknowledge_def world_alerts_def world0_def alert7_def alert8_def)
  with m d show ?thesis by blast
qed

text \<open>
  C10, as amended. When the query finds no record, the aggregate is 0, 0, \<open>Infinity\<close>
  and no data point. When it finds records, \<open>averageAqi\<close> is the running sum of the
  values divided by their number as doubles compute them, each addition and the division
  rounded to the nearest double: for values that are natural numbers with a sum below
  \<open>2^53\<close> the sum is exact and the average is the double nearest to the exact quotient.
  \<open>minAqi\<close> is the least of the values, and \<open>maxAqi\<close> the greatest of the values and 0:
  the greatest of the values as soon as one of them is not negative. When a value is
  \<open>NaN\<close>, all three are \<open>NaN\<close>.
\<close>

theorem trend_aggregates:
  assumes "data = trend_query userId loc startDate endDate (history w)"
    and "vs = values_of data"
    and "T = trend userId loc startDate endDate w"
  shows "(data = [] \<longrightarrow>
      T = \<lparr>averageAqi = Finite 0, maxAqi = Finite 0, minAqi = PosInfinity, dataPoints = []\<rparr>)
   \<and> (data \<noteq> [] \<longrightarrow>
        averageAqi T = num_div_length (foldl num_add (Finite 0) vs) (length vs)
      \<and> dataPoints T = map point_of data
      \<and> (NaN \<in> set vs \<longrightarrow> averageAqi T = NaN \<and> maxAqi T = NaN \<and> minAqi T = NaN)
      \<and> (NaN \<notin> set vs \<longrightarrow>
            minAqi T \<in> set vs \<and> (\<forall>v \<in> set vs. num_le (minAqi T) v)
          \<and> num_le (Finite 0) (maxAqi T) \<and> (\<forall>v \<in> set vs. num_le v (maxAqi T))
          \<and> (maxAqi T \<in> set vs \<or> maxAqi T = Finite 0)
          \<and> ((\<exists>v \<in> set vs. num_le (Finite 0) v) \<longrightarrow> maxAqi T \<in> set vs))
      \<and> (vs = map (\<lambda>k. Finite (real k)) ks \<and> sum_list ks < 2 ^ 53 \<longrightarrow>
            averageAqi T = to_double (real (sum_list ks) / real (length ks))))"
proof -
  have T: "T = compute_trends data"
    by (simp add: assms trend_def)
  have len: "length (values_of data) = length data"
    by (simp add: values_of_def)
  have empty: "T = \<lparr>averageAqi = Finite 0, maxAqi = Finite 0, minAqi = PosInfinity, dataPoints = []\<rparr>"
    if "data = []"
    using that by (simp add: T compute_trends_def)
  have fold: "T = \<lparr>averageAqi = num_div_length (foldl num_add (Finite 0) vs) (length vs),
      maxAqi = foldl Math_max (Finite 0) vs, minAqi = foldl Math_min PosInfinity vs,
      dataPoints = map point_of data\<rparr>" if "data \<noteq> []"
    using compute_trends_fold [OF that] by (simp add: T assms(2) len)
  have nan: "averageAqi T = NaN \<and> maxAqi T = NaN \<and> minAqi T = NaN"
    if ne: "data \<noteq> []" and "NaN \<in> set vs"
    using foldl_NaN [OF that(2)] by (simp add: fold [OF ne])
  have ord: "minAqi T \<in> set vs \<and> (\<forall>v \<in> set vs. num_le (minAqi T) v)
          \<and> num_le (Finite 0) (maxAqi T) \<and> (\<forall>v \<in> set vs. num_le v (maxAqi T))
          \<and> (maxAqi T \<in> set vs \<or> maxAqi T = Finite 0)
          \<and> ((\<exists>v \<in> set vs. num_le (Finite 0) v) \<longrightarrow> maxAqi T \<in> set vs)"
    if ne: "data \<noteq> []" and clean: "NaN \<notin> set vs"
  proof -
    have vs: "vs \<noteq> []" using ne len by (auto simp add: assms(2))
    have mn: "minAqi T = foldl Math_min PosInfinity vs" and mx: "maxAqi T = foldl Math_max (Finite 0) vs"
      by (simp_all add: fold [OF ne])
    from foldl_min [of PosInfinity vs] clean have m:
      "\<forall>v \<in> set vs. num_le (minAqi T) v" "minAqi T = PosInfinity \<or> minAqi T \<in> set vs"
      by (simp_all add: mn)
    have m_in: "minAqi T \<in> set vs"
    proof (cases "minAqi T = PosInfinity")
      case True
      from vs obtain v where v: "v \<in> set vs" by (cases vs) auto
      with m(1) True have "v = PosInfinity" by (auto dest: num_le_PosInfinity)
      with v True show ?thesis by simp
    next
      case False
      with m(2) show ?thesis by simp
    qed
    from foldl_max [of "Finite 0" vs] clean have x:
      "maxAqi T \<noteq> NaN" "num_le (Finite 0) (maxAqi T)" "\<forall>v \<in> set vs. num_le v (maxAqi T)"
      "maxAqi T = Finite 0 \<or> maxAqi T \<in> set vs"
      by (simp_all add: mx)
    have x_in: "maxAqi T \<in> set vs" if "\<exists>v \<in> set vs. num_le (Finite 0) v"
    proof (cases "maxAqi T = Finite 0")
      case True
      from that obtain v where v: "v \<in> set vs" "num_le (Finite 0) v" by blast
      with x(3) True have "num_le v (Finite 0)" by auto
      with v(2) have "v = Finite 0" by (cases v) simp_all
      with v(1) True show ?thesis by simp
    next
      case False
      with x(4) show ?thesis by simp
    qed
    from m(1) m_in x(2,3,4) x_in show ?thesis by blast
  qed
  have nat: "averageAqi T = to_double (real (sum_list ks) / real (length ks))"
    if "data \<noteq> []" and "vs = map (\<lambda>k. Finite (real k)) ks" and "sum_list ks < 2 ^ 53"
    using average_nat [OF that(1) _ that(3)] that(2) by (simp add: T assms(2))
  have avg: "averageAqi T = num_div_length (foldl num_add (Finite 0) vs) (length vs)"
    "dataPoints T = map point_of data" if "data \<noteq> []"
    by (simp_all add: fold [OF that] del: num_div_length.simps)
  from empty avg nan ord nat show ?thesis by blast
qed

text \<open>
  No record: the initial aggregate. The readings 80, 120, 90: minimum 80, maximum 120,
  and the average is 290/3 rounded to a double.
\<close>

theorem trend_aggregates_witness:
  "trend_query 1 None 0 10 (history world0) = []
   \<and> trend 1 None 0 10 world0 =
        \<lparr>averageAqi = Finite 0, maxAqi = Finite 0, minAqi = PosInfinity, dataPoints = []\<rparr>
   \<and> values_of (trend_query 1 None 0 10 (history world_week)) = [Finite 80, Finite 120, Finite 90]
   \<and> averageAqi (trend 1 None 0 10 world_week) = to_double (290 / 3)
   \<and> minAqi (trend 1 None 0 10 world_week) = Finite 80
   \<and> maxAqi (trend 1 None 0 10 world_week) = Finite 120"
proof -
  have q0: "trend_query 1 None 0 10 (history world0) = []"
    by (simp add: trend_query_def world0_def)
  from trend_aggregates [OF refl refl refl, where userId = 1 and loc = None and startDate = 0
      and endDate = 10 and w = world0] q0
  have e: "trend 1 None 0 10 world0 =
        \<lparr>averageAqi = Finite 0, maxAqi = Finite 0, minAqi = PosInfinity, dataPoints = []\<rparr>"
    by blast
  let ?T = "trend 1 None 0 10 world_week"
  let ?vs = "[Finite 80, Finite 120, Finite 90]"
  have ne: "trend_query 1 None 0 10 (history world_week) \<noteq> []"
    unfolding week_query by simp
  have clean: "NaN \<notin> set ?vs" by simp
  have nats: "?vs = map (\<lambda>k. Finite (real k)) [80, 120, 90]" by simp
  have small: "sum_list [80, 120, 90 :: nat] < 2 ^ 53" by simp
  have pos: "\<exists>v \<in> set ?vs. num_le (Finite 0) v" by simp
  note t = trend_aggregates [OF refl week_values [symmetric] refl, where ks = "[80, 120, 90]"]
  from t ne nats small have avg: "averageAqi ?T = to_double (real (sum_list [80, 120, 90]) / real (length [80, 120, 90 :: nat]))"
    by blast
  from t ne clean have mn: "minAqi ?T \<in> set ?vs" "\<forall>v \<in> set ?vs. num_le (minAqi ?T) v"
    by blast+
  from t ne clean pos have mx: "maxAqi ?T \<in> set ?vs" "\<forall>v \<in> set ?vs. num_le v (maxAqi ?T)"
    by blast+
  have a: "averageAqi ?T = to_double (290 / 3)" using avg by simp
  have "minAqi ?T = Finite 80" using mn by auto
  moreover have "maxAqi ?T = Finite 120" using mx by auto
  ultimately show ?thesis using q0 e week_values a by blast
qed

text \<open>
  C10 as stated fails for \<open>averageAqi\<close>. For the readings 80, 120, 90 the exact sum
  divided by the count is 290/3; \<open>averageAqi\<close> is the double next to it, which prints
  as 96.66666666666667.
\<close>

theorem trend_average_rounded:
  "values_of (trend_query 1 None 0 10 (history world_week)) = [Finite 80, Finite 120, Finite 90]
   \<and> (80 + 120 + 90) / 3 = (290 / 3 :: real)
   \<and> averageAqi (trend 1 None 0 10 world_week) = Finite (6802311937174187 / 70368744177664)
   \<and> Finite (6802311937174187 / 70368744177664) \<noteq> Finite (290 / 3)"
proof -
  have ne: "trend_query 1 None 0 10 (history world_week) \<noteq> []"
    unfolding week_query by simp
  have nats: "values_of (trend_query 1 None 0 10 (history world_week))
      = map (\<lambda>k. Finite (real k)) [80, 120, 90]"
    unfolding week_values by simp
  have "averageAqi (trend 1 None 0 10 world_week)
      = to_double (real (sum_list [80, 120, 90]) / real (length [80, 120, 90 :: nat]))"
    unfolding trend_def by (rule average_nat [OF ne nats]) simp
  also have "\<dots> = to_double (290 / 3)" by simp
  finally have "averageAqi (trend 1 None 0 10 world_week)
      = Finite (6802311937174187 / 70368744177664)"
    by (simp only: to_double_290_3)
  with week_values not_exact show ?thesis by simp
qed

end
